theory Spec2Isabelle
  imports Complex_Main "HOL-Library.Char_ord" "HOL-Library.List_Lexorder"
begin

section \<open>Python values and the operations the bot applies to them\<close>

text \<open>
  The bot reads decoded JSON payloads. A Python \<open>str\<close> is modelled as its UTF-8 byte
  string (the lexicographic order on UTF-8 bytes is the order on code points), a
  \<open>dict\<close> as an association list read with \<open>map_of\<close>. Numbers are the integers;
  payloads with fractional numbers are outside the model.
\<close>

datatype json =
    JNull
  | JBool bool
  | JNum int
  | JStr string
  | JArr "json list"
  | JObj "(string \<times> json) list"

datatype error =
    AttributeError
  | TypeError
  | KeyError
  | IndexError
  | ValueError
  | UpstreamError

text \<open>Sequencing of fallible steps: the first raise wins.\<close>

definition bind :: "error + 'a \<Rightarrow> ('a \<Rightarrow> error + 'b) \<Rightarrow> error + 'b" where
  "bind r f = (case r of Inl e \<Rightarrow> Inl e | Inr v \<Rightarrow> f v)"

text \<open>Truth value of a Python object, as \<open>or\<close>, \<open>not\<close> and \<open>if\<close> test it.\<close>

fun truthy :: "json \<Rightarrow> bool" where
  "truthy JNull = False"
| "truthy (JBool b) = b"
| "truthy (JNum n) = (n \<noteq> 0)"
| "truthy (JStr s) = (s \<noteq> [])"
| "truthy (JArr xs) = (xs \<noteq> [])"
| "truthy (JObj kvs) = (kvs \<noteq> [])"

definition py_or :: "json \<Rightarrow> json \<Rightarrow> json" where
  "py_or a b = (if truthy a then a else b)"

text \<open>\<open>d.get(k, default)\<close>: only a dict has the method.\<close>

fun dict_get :: "json \<Rightarrow> string \<Rightarrow> json \<Rightarrow> error + json" where
  "dict_get (JObj kvs) k d = Inr (case map_of kvs k of Some v \<Rightarrow> v | None \<Rightarrow> d)"
| "dict_get _ k d = Inl AttributeError"

text \<open>The characters of a \<open>str\<close>: a lead byte with its continuation bytes.\<close>

definition is_cont :: "char \<Rightarrow> bool" where
  "is_cont c = (128 \<le> (of_char c :: nat) \<and> (of_char c :: nat) < 192)"

fun py_chars :: "string \<Rightarrow> string list" where
  "py_chars [] = []"
| "py_chars [c] = [[c]]"
| "py_chars (c # d # cs) =
     (if is_cont d then (case py_chars (d # cs) of g # gs \<Rightarrow> (c # g) # gs | [] \<Rightarrow> [[c]])
      else [c] # py_chars (d # cs))"

text \<open>\<open>x[0]\<close>, \<open>x[1]\<close>: subscripting by a position.\<close>

fun py_index :: "json \<Rightarrow> nat \<Rightarrow> error + json" where
  "py_index (JArr xs) i = (if i < length xs then Inr (xs ! i) else Inl IndexError)"
| "py_index (JStr s) i =
     (if i < length (py_chars s) then Inr (JStr (py_chars s ! i)) else Inl IndexError)"
| "py_index (JObj kvs) i = Inl KeyError"
| "py_index _ i = Inl TypeError"

fun py_len :: "json \<Rightarrow> error + nat" where
  "py_len (JArr xs) = Inr (length xs)"
| "py_len (JStr s) = Inr (length (py_chars s))"
| "py_len (JObj kvs) = Inr (length (remdups (map fst kvs)))"
| "py_len _ = Inl TypeError"

text \<open>The items a \<open>for\<close> loop or a generator visits.\<close>

fun py_iter :: "json \<Rightarrow> error + json list" where
  "py_iter (JArr xs) = Inr xs"
| "py_iter (JStr s) = Inr (map JStr (py_chars s))"
| "py_iter (JObj kvs) = Inr (map JStr (remdups (map fst kvs)))"
| "py_iter _ = Inl TypeError"

text \<open>Decimal rendering of integers, for \<open>str\<close> and f-strings.\<close>

fun digits :: "nat \<Rightarrow> nat \<Rightarrow> string" where
  "digits 0 n = []"
| "digits (Suc fuel) n =
     (if n < 10 then [char_of (48 + n)]
      else digits fuel (n div 10) @ [char_of (48 + n mod 10)])"

definition show_nat :: "nat \<Rightarrow> string" where
  "show_nat n = digits (Suc n) n"

definition show_int :: "int \<Rightarrow> string" where
  "show_int i = (if i < 0 then CHR ''-'' # show_nat (nat (- i)) else show_nat (nat i))"

text \<open>
  \<open>repr\<close> of a string: single quotes unless the string holds an apostrophe and no
  double quote; the backslash, the quote in use, newline, carriage return, tab and the
  other ASCII control characters are escaped. Characters outside ASCII are printed as
  they are; the few of them that Python escapes as unprintable are not modelled.
\<close>

definition hex_digit :: "nat \<Rightarrow> char" where
  "hex_digit n = (if n < 10 then char_of (48 + n) else char_of (87 + n))"

definition repr_char :: "char \<Rightarrow> char \<Rightarrow> string" where
  "repr_char q c =
     (if c = CHR 0x5C then [CHR 0x5C, CHR 0x5C]
      else if c = q then [CHR 0x5C, q]
      else if c = CHR 0x0A then [CHR 0x5C, CHR ''n'']
      else if c = CHR 0x0D then [CHR 0x5C, CHR ''r'']
      else if c = CHR 0x09 then [CHR 0x5C, CHR ''t'']
      else if (of_char c :: nat) < 32 \<or> (of_char c :: nat) = 127 then
        [CHR 0x5C, CHR ''x'', hex_digit (of_char c div 16), hex_digit (of_char c mod 16)]
      else [c])"

definition repr_str :: "string \<Rightarrow> string" where
  "repr_str s =
     (let q = (if CHR 0x27 \<in> set s \<and> CHR 0x22 \<notin> set s then CHR 0x22 else CHR 0x27)
      in [q] @ concat (map (repr_char q) s) @ [q])"

text \<open>\<open>repr(x)\<close> and \<open>str(x)\<close>; inside a list or a dict Python prints the \<open>repr\<close>.\<close>

fun join :: "string \<Rightarrow> string list \<Rightarrow> string" where
  "join sep [] = []"
| "join sep [x] = x"
| "join sep (x # y # ys) = x @ sep @ join sep (y # ys)"

fun py_repr :: "json \<Rightarrow> string" where
  "py_repr JNull = ''None''"
| "py_repr (JBool b) = (if b then ''True'' else ''False'')"
| "py_repr (JNum n) = show_int n"
| "py_repr (JStr s) = repr_str s"
| "py_repr (JArr xs) = ''['' @ join '', '' (map py_repr xs) @ '']''"
| "py_repr (JObj kvs) =
     ''{'' @ join '', '' (map (\<lambda>kv. repr_str (fst kv) @ '': '' @ py_repr (snd kv)) kvs) @ ''}''"

fun py_str :: "json \<Rightarrow> string" where
  "py_str (JStr s) = s"
| "py_str v = py_repr v"

section \<open>The canonical match and the scoreboard normalizer\<close>

text \<open>
  The dict built by \<open>parse_espn_events_to_matches\<close>. The ids pass through \<open>str\<close>;
  the start time and the two names are stored as received.
\<close>

record match =
  sport :: string
  league :: string
  league_name :: string
  match_id :: string
  start_time :: json
  home :: json
  away :: json
  home_id :: string
  away_id :: string

text \<open>\<open>next((c for c in comps if c.get("homeAway") == tag), comps[i])\<close>\<close>

fun first_tagged :: "string \<Rightarrow> json list \<Rightarrow> error + json option" where
  "first_tagged tag [] = Inr None"
| "first_tagged tag (c # cs) =
     bind (dict_get c ''homeAway'' JNull)
       (\<lambda>v. if v = JStr tag then Inr (Some c) else first_tagged tag cs)"

definition pick_side :: "string \<Rightarrow> json \<Rightarrow> nat \<Rightarrow> error + json" where
  "pick_side tag comps i =
     bind (py_iter comps) (\<lambda>items.
     bind (py_index comps i) (\<lambda>dflt.
     bind (first_tagged tag items) (\<lambda>r.
     Inr (case r of Some c \<Rightarrow> c | None \<Rightarrow> dflt))))"

text \<open>\<open>team.get("displayName") or team.get("shortDisplayName") or placeholder\<close>\<close>

definition display_name :: "json \<Rightarrow> string \<Rightarrow> error + json" where
  "display_name team placeholder =
     bind (dict_get team ''displayName'' JNull) (\<lambda>d.
     if truthy d then Inr d
     else bind (dict_get team ''shortDisplayName'' JNull) (\<lambda>s.
          Inr (py_or s (JStr placeholder))))"

text \<open>
  One pass through the body of the loop of \<open>parse_espn_events_to_matches\<close>:
  \<open>Inr None\<close> is \<open>continue\<close>, \<open>Inr (Some m)\<close> is the appended match, \<open>Inl e\<close> a raise.
\<close>

definition event_to_match ::
  "string \<Rightarrow> json \<Rightarrow> string \<Rightarrow> string \<Rightarrow> error + match option" where
  "event_to_match sport_key ev league_code lname =
     bind (dict_get ev ''competitions'' (JArr [])) (\<lambda>c0.
     let competitions = py_or c0 (JArr []) in
     if \<not> truthy competitions then Inr None
     else
     bind (py_index competitions 0) (\<lambda>comp.
     bind (dict_get comp ''competitors'' (JArr [])) (\<lambda>c1.
     let comps = py_or c1 (JArr []) in
     bind (py_len comps) (\<lambda>n.
     if n < 2 then Inr None
     else
     bind (pick_side ''home'' comps 0) (\<lambda>home_obj.
     bind (pick_side ''away'' comps 1) (\<lambda>away_obj.
     bind (dict_get home_obj ''team'' JNull) (\<lambda>t1.
     bind (dict_get away_obj ''team'' JNull) (\<lambda>t2.
     let home_team = py_or t1 (JObj []); away_team = py_or t2 (JObj []) in
     bind (dict_get ev ''id'' JNull) (\<lambda>eid.
     bind (dict_get ev ''date'' (JStr [])) (\<lambda>evdate.
     bind (dict_get comp ''date'' evdate) (\<lambda>st.
     bind (display_name home_team ''HOME'') (\<lambda>h.
     bind (display_name away_team ''AWAY'') (\<lambda>a.
     bind (dict_get home_team ''id'' (JStr [])) (\<lambda>hid.
     bind (dict_get away_team ''id'' (JStr [])) (\<lambda>aid.
     Inr (Some \<lparr> sport = sport_key, league = league_code, league_name = lname,
                 match_id = py_str eid, start_time = st, home = h, away = a,
                 home_id = py_str hid, away_id = py_str aid \<rparr>))))))))))))))))"

fun parse_events ::
  "string \<Rightarrow> json list \<Rightarrow> string \<Rightarrow> string \<Rightarrow> match list \<Rightarrow> error + match list" where
  "parse_events sport_key [] league_code lname matches = Inr matches"
| "parse_events sport_key (ev # evs) league_code lname matches =
     (case event_to_match sport_key ev league_code lname of
        Inl e \<Rightarrow> Inl e
      | Inr None \<Rightarrow> parse_events sport_key evs league_code lname matches
      | Inr (Some m) \<Rightarrow> parse_events sport_key evs league_code lname (matches @ [m]))"

definition parse_espn_events_to_matches ::
  "string \<Rightarrow> json \<Rightarrow> string \<Rightarrow> string \<Rightarrow> error + match list" where
  "parse_espn_events_to_matches sport_key scoreboard league_code lname =
     bind (dict_get scoreboard ''events'' (JArr [])) (\<lambda>e.
     bind (py_iter (py_or e (JArr []))) (\<lambda>evs.
     parse_events sport_key evs league_code lname []))"

subsection \<open>Numbers from text, comparison, sorting, slicing and splitting\<close>

text \<open>
  \<open>int(x)\<close>. A string is stripped of white space, may carry a sign, and holds decimal
  digits that single underscores may separate; white space and digits outside ASCII,
  which Python also accepts, are not modelled.
\<close>

definition is_digit :: "char \<Rightarrow> bool" where
  "is_digit c = (48 \<le> (of_char c :: nat) \<and> (of_char c :: nat) \<le> 57)"

definition is_space :: "char \<Rightarrow> bool" where
  "is_space c = (of_char c \<in> {9, 10, 11, 12, 13, 28, 29, 30, 31, 32 :: nat})"

fun digits_val :: "string \<Rightarrow> nat \<Rightarrow> nat option" where
  "digits_val [] acc = Some acc"
| "digits_val (c # cs) acc =
     (if is_digit c then digits_val cs (10 * acc + (of_char c - 48))
      else if c = CHR ''_'' \<and> cs \<noteq> [] \<and> is_digit (hd cs) then digits_val cs acc
      else None)"

definition unsigned_of_str :: "string \<Rightarrow> nat option" where
  "unsigned_of_str s = (if s \<noteq> [] \<and> is_digit (hd s) then digits_val s 0 else None)"

definition strip :: "string \<Rightarrow> string" where
  "strip s = rev (dropWhile is_space (rev (dropWhile is_space s)))"

definition int_of_str :: "string \<Rightarrow> error + int" where
  "int_of_str s =
     (case strip s of
        [] \<Rightarrow> Inl ValueError
      | c # cs \<Rightarrow>
          if c = CHR ''-'' then
            (case unsigned_of_str cs of Some n \<Rightarrow> Inr (- int n) | None \<Rightarrow> Inl ValueError)
          else if c = CHR ''+'' then
            (case unsigned_of_str cs of Some n \<Rightarrow> Inr (int n) | None \<Rightarrow> Inl ValueError)
          else
            (case unsigned_of_str (c # cs) of Some n \<Rightarrow> Inr (int n) | None \<Rightarrow> Inl ValueError))"

fun py_int :: "json \<Rightarrow> error + int" where
  "py_int (JStr s) = int_of_str s"
| "py_int (JNum n) = Inr n"
| "py_int (JBool b) = Inr (if b then 1 else 0)"
| "py_int _ = Inl TypeError"

text \<open>The number a value counts as in comparisons: \<open>True\<close> is 1 and \<open>False\<close> is 0.\<close>

fun num_of :: "json \<Rightarrow> int option" where
  "num_of (JNum n) = Some n"
| "num_of (JBool b) = Some (if b then 1 else 0)"
| "num_of _ = None"

text \<open>\<open>x == y\<close> on decoded JSON.\<close>

fun py_eq :: "json \<Rightarrow> json \<Rightarrow> bool"
  and py_eq_list :: "json list \<Rightarrow> json list \<Rightarrow> bool"
  and py_eq_items :: "(string \<times> json) list \<Rightarrow> (string \<times> json) list \<Rightarrow> bool" where
  "py_eq JNull y = (y = JNull)"
| "py_eq (JBool b) y = (num_of y = Some (if b then 1 else 0))"
| "py_eq (JNum n) y = (num_of y = Some n)"
| "py_eq (JStr s) y = (y = JStr s)"
| "py_eq (JArr xs) y = (case y of JArr ys \<Rightarrow> py_eq_list xs ys | _ \<Rightarrow> False)"
| "py_eq (JObj kvs) y =
     (case y of
        JObj kvs' \<Rightarrow> length (remdups (map fst kvs)) = length (remdups (map fst kvs'))
                     \<and> py_eq_items kvs kvs'
      | _ \<Rightarrow> False)"
| "py_eq_list [] ys = (ys = [])"
| "py_eq_list (x # xs) ys = (case ys of [] \<Rightarrow> False | y # ys' \<Rightarrow> py_eq x y \<and> py_eq_list xs ys')"
| "py_eq_items [] b = True"
| "py_eq_items (kv # kvs) b =
     ((case map_of b (fst kv) of Some v' \<Rightarrow> py_eq (snd kv) v' | None \<Rightarrow> False)
      \<and> py_eq_items kvs b)"

text \<open>
  \<open>x < y\<close>: strings by code points, numbers by value, lists by their first differing
  items; every other pairing raises \<open>TypeError\<close>.
\<close>

fun py_lt :: "json \<Rightarrow> json \<Rightarrow> error + bool"
  and py_lt_list :: "json list \<Rightarrow> json list \<Rightarrow> error + bool" where
  "py_lt JNull y = Inl TypeError"
| "py_lt (JBool b) y =
     (case num_of y of Some m \<Rightarrow> Inr ((if b then 1 else 0) < m) | None \<Rightarrow> Inl TypeError)"
| "py_lt (JNum n) y = (case num_of y of Some m \<Rightarrow> Inr (n < m) | None \<Rightarrow> Inl TypeError)"
| "py_lt (JStr s) y = (case y of JStr t \<Rightarrow> Inr (s < t) | _ \<Rightarrow> Inl TypeError)"
| "py_lt (JArr xs) y = (case y of JArr ys \<Rightarrow> py_lt_list xs ys | _ \<Rightarrow> Inl TypeError)"
| "py_lt (JObj kvs) y = Inl TypeError"
| "py_lt_list [] ys = Inr (ys \<noteq> [])"
| "py_lt_list (x # xs) ys =
     (case ys of
        [] \<Rightarrow> Inr False
      | y # ys' \<Rightarrow> if py_eq x y then py_lt_list xs ys' else py_lt x y)"

text \<open>
  \<open>xs.sort(key=f)\<close>: a stable sort that compares keys with \<open><\<close> only. It is modelled as
  an insertion sort that puts each item behind the items already placed whose key is not
  greater; a comparison that raises ends the sort with that error. Python's own sort
  makes other comparisons, and gives the same list whenever the keys are all strings.
\<close>

fun insert_by_key :: "('a \<Rightarrow> json) \<Rightarrow> 'a \<Rightarrow> 'a list \<Rightarrow> error + 'a list" where
  "insert_by_key f x [] = Inr [x]"
| "insert_by_key f x (y # ys) =
     bind (py_lt (f x) (f y)) (\<lambda>b.
     if b then Inr (x # y # ys)
     else bind (insert_by_key f x ys) (\<lambda>r. Inr (y # r)))"

fun sort_loop :: "('a \<Rightarrow> json) \<Rightarrow> 'a list \<Rightarrow> 'a list \<Rightarrow> error + 'a list" where
  "sort_loop f [] placed = Inr placed"
| "sort_loop f (x # xs) placed = bind (insert_by_key f x placed) (sort_loop f xs)"

definition py_sort :: "('a \<Rightarrow> json) \<Rightarrow> 'a list \<Rightarrow> error + 'a list" where
  "py_sort f xs = sort_loop f xs []"

text \<open>\<open>xs[start:end]\<close> with Python's clamping of both bounds.\<close>

definition slice_bound :: "nat \<Rightarrow> int \<Rightarrow> nat" where
  "slice_bound n i = (if i < 0 then nat (max 0 (int n + i)) else min (nat i) n)"

definition py_slice :: "'a list \<Rightarrow> int \<Rightarrow> int \<Rightarrow> 'a list" where
  "py_slice xs start stop =
     take (slice_bound (length xs) stop - slice_bound (length xs) start)
          (drop (slice_bound (length xs) start) xs)"

text \<open>\<open>s.split("|")\<close> and \<open>parts[i]\<close>.\<close>

fun split_bar :: "string \<Rightarrow> string list" where
  "split_bar [] = [[]]"
| "split_bar (c # cs) =
     (if c = CHR ''|'' then [] # split_bar cs
      else (case split_bar cs of p # ps \<Rightarrow> (c # p) # ps | [] \<Rightarrow> [[c]]))"

definition part :: "string list \<Rightarrow> nat \<Rightarrow> error + string" where
  "part parts i = (if i < length parts then Inr (parts ! i) else Inl IndexError)"

subsection \<open>The normalizer as the specification words it\<close>

text \<open>
  The role tag decides the side when a competitor carries it, the position otherwise; the
  name is the long display name, else the short one, else the placeholder.
\<close>

definition field :: "json \<Rightarrow> string \<Rightarrow> json" where
  "field d k =
     (case d of JObj kvs \<Rightarrow> (case map_of kvs k of Some v \<Rightarrow> v | None \<Rightarrow> JNull) | _ \<Rightarrow> JNull)"

definition is_dict :: "json \<Rightarrow> bool" where
  "is_dict d = (case d of JObj kvs \<Rightarrow> True | _ \<Rightarrow> False)"

definition tagged_or_positional :: "string \<Rightarrow> json list \<Rightarrow> nat \<Rightarrow> json" where
  "tagged_or_positional tag cs i =
     (case find (\<lambda>c. field c ''homeAway'' = JStr tag) cs of Some c \<Rightarrow> c | None \<Rightarrow> cs ! i)"

definition name_or_placeholder :: "json \<Rightarrow> string \<Rightarrow> json" where
  "name_or_placeholder team placeholder =
     (if truthy (field team ''displayName'') then field team ''displayName''
      else if truthy (field team ''shortDisplayName'') then field team ''shortDisplayName''
      else JStr placeholder)"

text \<open>A competitor entry is a dict whose team, when it has one, is a dict.\<close>

definition well_formed_competitor :: "json \<Rightarrow> bool" where
  "well_formed_competitor c =
     (is_dict c \<and> (is_dict (field c ''team'') \<or> \<not> truthy (field c ''team'')))"

text \<open>The string a start time is, for the order of the stored list.\<close>

fun is_str :: "json \<Rightarrow> bool" where
  "is_str (JStr s) = True"
| "is_str _ = False"

fun str_of :: "json \<Rightarrow> string" where
  "str_of (JStr s) = s"
| "str_of _ = []"

text \<open>
  An event normalizes when the loop body does not raise on it; the matches of a batch are
  those of its events that produce one, in the order of the payload.
\<close>

definition normalizes :: "string \<Rightarrow> string \<Rightarrow> string \<Rightarrow> json \<Rightarrow> bool" where
  "normalizes sp code nm ev =
     (case event_to_match sp ev code nm of Inl e \<Rightarrow> False | Inr r \<Rightarrow> True)"

definition matches_of :: "string \<Rightarrow> json list \<Rightarrow> string \<Rightarrow> string \<Rightarrow> match list" where
  "matches_of sp evs code nm =
     concat (map (\<lambda>ev. case event_to_match sp ev code nm of
                          Inr (Some m) \<Rightarrow> [m] | _ \<Rightarrow> []) evs)"

section \<open>The response cache and the upstream client\<close>

text \<open>
  Modelled from the spec: the class \<open>TTLCache\<close> comes from the package cachetools, whose
  code is not in the repository; the source only builds \<open>TTLCache(maxsize=2048, ttl=60)\<close>
  and uses \<open>key in CACHE\<close>, \<open>CACHE[key]\<close> and \<open>CACHE[key] = data\<close>. The model follows the
  words of the specification: an entry expires \<open>ttl\<close> seconds after its insertion, and an
  insertion into a full cache evicts the least recently used entry. The list holds key,
  value and expiry time, least recently used first; time is the reading of the cache's
  clock in seconds.
\<close>

type_synonym cache = "(string \<times> json \<times> real) list"

text \<open>Modelled from the spec: the two arguments of \<open>TTLCache(maxsize=2048, ttl=60)\<close>.\<close>

definition maxsize :: nat where
  "maxsize = 2048"

definition ttl :: real where
  "ttl = 60"

text \<open>
  Modelled from the spec: \<open>key in CACHE\<close>, true for an entry that has not expired; it
  does not count as a use.
\<close>

definition cache_contains :: "cache \<Rightarrow> real \<Rightarrow> string \<Rightarrow> bool" where
  "cache_contains c t k = (case map_of c k of Some (v, e) \<Rightarrow> t < e | None \<Rightarrow> False)"

text \<open>
  Modelled from the spec: \<open>CACHE[key]\<close>, which raises \<open>KeyError\<close> on a miss and makes a
  live entry the most recently used.
\<close>

definition cache_getitem :: "cache \<Rightarrow> real \<Rightarrow> string \<Rightarrow> (error + json) \<times> cache" where
  "cache_getitem c t k =
     (case map_of c k of
        Some (v, e) \<Rightarrow>
          if t < e then (Inr v, filter (\<lambda>x. fst x \<noteq> k) c @ [(k, v, e)])
          else (Inl KeyError, c)
      | None \<Rightarrow> (Inl KeyError, c))"

text \<open>Modelled from the spec: the removal of the entries that have expired.\<close>

definition expire :: "cache \<Rightarrow> real \<Rightarrow> cache" where
  "expire c t = filter (\<lambda>x. t < snd (snd x)) c"

text \<open>
  Modelled from the spec: room for one more entry is made by dropping least recently
  used entries.
\<close>

fun evict :: "cache \<Rightarrow> cache" where
  "evict [] = []"
| "evict (x # xs) = (if maxsize < length (x # xs) + 1 then evict xs else x # xs)"

text \<open>
  Modelled from the spec: \<open>CACHE[key] = value\<close>, which drops expired entries, evicts for a
  new key, and stores the entry as the most recently used with a fresh expiry time.
\<close>

definition cache_setitem :: "cache \<Rightarrow> real \<Rightarrow> string \<Rightarrow> json \<Rightarrow> cache" where
  "cache_setitem c t k v =
     (let c1 = expire c t;
          c2 = (if k \<in> fst ` set c1 then c1 else evict c1)
      in filter (\<lambda>x. fst x \<noteq> k) c2 @ [(k, v, t + ttl)])"

text \<open>The uses the program makes of the cache, each at the time it happens.\<close>

datatype cache_op =
    Contains string real
  | Getitem string real
  | Setitem string json real

fun apply_op :: "cache \<Rightarrow> cache_op \<Rightarrow> cache" where
  "apply_op c (Contains k t) = c"
| "apply_op c (Getitem k t) = snd (cache_getitem c t k)"
| "apply_op c (Setitem k v t) = cache_setitem c t k v"

fun puts_key :: "string \<Rightarrow> cache_op \<Rightarrow> bool" where
  "puts_key k (Setitem k' v t) = (k' = k)"
| "puts_key k _ = False"

text \<open>
  The key an operation uses: a put uses its key, a lookup uses its key when it hits, a
  membership test uses none.
\<close>

fun used_key :: "cache \<Rightarrow> cache_op \<Rightarrow> string option" where
  "used_key c (Contains k t) = None"
| "used_key c (Getitem k t) = (if cache_contains c t k then Some k else None)"
| "used_key c (Setitem k v t) = Some k"

text \<open>
  A run of operations numbered from \<open>i\<close>, with the number of the operation that last
  used each key kept beside the cache.
\<close>

fun track ::
  "cache_op list \<Rightarrow> nat \<Rightarrow> cache \<times> (string \<Rightarrow> nat option)
   \<Rightarrow> cache \<times> (string \<Rightarrow> nat option)" where
  "track [] i s = s"
| "track (op # ops) i (c, lu) =
     track ops (Suc i)
       (apply_op c op, (case used_key c op of Some k \<Rightarrow> lu(k \<mapsto> i) | None \<Rightarrow> lu))"

definition last_use :: "(string \<Rightarrow> nat option) \<Rightarrow> string \<Rightarrow> nat" where
  "last_use lu k = (case lu k of Some i \<Rightarrow> i | None \<Rightarrow> 0)"

text \<open>
  The record of last uses fits the cache at step \<open>i\<close>: the keys held are distinct, each
  was last used before \<open>i\<close>, and no two were last used by the same operation.
\<close>

definition tracked :: "nat \<Rightarrow> (string \<Rightarrow> nat option) \<Rightarrow> cache \<Rightarrow> bool" where
  "tracked i lu c =
     (distinct (map fst c)
      \<and> (\<forall>x \<in> set c. last_use lu (fst x) < i)
      \<and> sorted_wrt (\<lambda>x y. last_use lu (fst x) < last_use lu (fst y)) c)"

text \<open>Every entry held for the key expires at the given time or before.\<close>

definition stale_by :: "string \<Rightarrow> real \<Rightarrow> cache \<Rightarrow> bool" where
  "stale_by k t c = (\<forall>x \<in> set c. fst x = k \<longrightarrow> snd (snd x) \<le> t)"

text \<open>
  The state shared by all requests: the clock, the cache, and a trace of the keys of every
  call of \<open>http_get_json\<close>, kept to say which calls an action makes.
\<close>

record world =
  now :: real
  CACHE :: cache
  trace :: "string list"

text \<open>
  What the program takes from outside: \<open>net url params t\<close> is the outcome of the GET sent
  at time \<open>t\<close> (status check and JSON decoding included) with the time at which it
  completes; \<open>utc_today t\<close> is the day number of \<open>datetime.now(timezone.utc)\<close>;
  \<open>ymd\<close> is \<open>strftime("%Y%m%d")\<close>; \<open>local_fmt s\<close> is
  \<open>datetime.fromisoformat(s.replace("Z", "+00:00")).astimezone().strftime("%d/%m %H:%M")\<close>,
  \<open>None\<close> when that raises.
\<close>

record env =
  net :: "string \<Rightarrow> (string \<times> json) list \<Rightarrow> real \<Rightarrow> (error + json) \<times> real"
  utc_today :: "real \<Rightarrow> int"
  ymd :: "int \<Rightarrow> string"
  local_fmt :: "string \<Rightarrow> string option"

definition ESPN_BASE :: string where
  "ESPN_BASE = ''https://site.api.espn.com/apis/site/v2''"

definition SOCCER_LEAGUES :: "(string \<times> string) list" where
  "SOCCER_LEAGUES =
     [(''eng.1'', ''Premier League''),
      (''esp.1'', ''LaLiga''),
      (''ita.1'', ''Serie A''),
      (''fra.1'', ''Ligue 1''),
      (''ger.1'', ''Bundesliga''),
      (''uefa.champions'', ''UEFA Champions League''),
      (''uefa.europa'', ''UEFA Europa League''),
      (''uefa.europa.conf'', ''UEFA Conference League''),
      (''fifa.world'', ''International (FIFA)'')]"

definition BASKET_LEAGUES :: "(string \<times> string) list" where
  "BASKET_LEAGUES =
     [(''nba'', ''NBA''),
      (''euroleague'', ''EuroLeague''),
      (''france-lnb'', ''Betclic '' @ [CHR 0xC3, CHR 0x89] @ ''LITE (si dispo)'')]"

definition TENNIS_LEAGUES :: "(string \<times> string) list" where
  "TENNIS_LEAGUES = [(''atp'', ''ATP''), (''wta'', ''WTA'')]"

definition fmt_dt :: "env \<Rightarrow> json \<Rightarrow> json" where
  "fmt_dt E iso_str =
     (case iso_str of
        JStr s \<Rightarrow> (case local_fmt E s of
                     Some r \<Rightarrow> JStr r
                   | None \<Rightarrow> py_or iso_str (JStr ''??''))
      | _ \<Rightarrow> py_or iso_str (JStr ''??''))"

definition yyyymmdd :: "env \<Rightarrow> int \<Rightarrow> string" where
  "yyyymmdd E dt = ymd E dt"

definition http_get_json ::
  "env \<Rightarrow> string \<Rightarrow> (string \<times> json) list \<Rightarrow> world \<Rightarrow> (error + json) \<times> world" where
  "http_get_json E url params w =
     (let key = url @ ''|'' @ py_str (JObj params);
          w0 = w\<lparr>trace := trace w @ [key]\<rparr>
      in if cache_contains (CACHE w0) (now w0) key
         then (case cache_getitem (CACHE w0) (now w0) key of
                 (r, c') \<Rightarrow> (r, w0\<lparr>CACHE := c'\<rparr>))
         else (case net E url params (now w0) of
                 (Inl e, t') \<Rightarrow> (Inl e, w0\<lparr>now := t'\<rparr>)
               | (Inr data, t') \<Rightarrow>
                   (Inr data, w0\<lparr>now := t', CACHE := cache_setitem (CACHE w0) t' key data\<rparr>)))"

section \<open>The match list of a sport\<close>

definition espn_scoreboard ::
  "env \<Rightarrow> string \<Rightarrow> string \<Rightarrow> int \<Rightarrow> world \<Rightarrow> (error + json) \<times> world" where
  "espn_scoreboard E sport_path lg dt w =
     http_get_json E (ESPN_BASE @ ''/sports/'' @ sport_path @ ''/'' @ lg @ ''/scoreboard'')
       [(''dates'', JStr (yyyymmdd E dt)), (''limit'', JNum 300)] w"

text \<open>
  The loop of \<open>fetch_soccer_matches\<close>, which \<open>fetch_tennis_matches\<close> repeats word for
  word with its own sport and leagues: a raise of the fetch or of the normalizer is
  caught and the loop goes on to the next league.
\<close>

fun leagues_loop ::
  "env \<Rightarrow> string \<Rightarrow> int \<Rightarrow> (string \<times> string) list \<Rightarrow> match list \<Rightarrow> world
   \<Rightarrow> (error + match list) \<times> world" where
  "leagues_loop E sp dt [] out w = (Inr out, w)"
| "leagues_loop E sp dt ((code, name) # rest) out w =
     (case espn_scoreboard E sp code dt w of
        (r, w1) \<Rightarrow>
          (case bind r (\<lambda>sb. parse_espn_events_to_matches sp sb code name) of
             Inl e \<Rightarrow> leagues_loop E sp dt rest out w1
           | Inr ms \<Rightarrow> leagues_loop E sp dt rest (out @ ms) w1))"

definition fetch_soccer_matches :: "env \<Rightarrow> int \<Rightarrow> world \<Rightarrow> (error + match list) \<times> world" where
  "fetch_soccer_matches E dt w = leagues_loop E ''soccer'' dt SOCCER_LEAGUES [] w"

definition fetch_tennis_matches :: "env \<Rightarrow> int \<Rightarrow> world \<Rightarrow> (error + match list) \<times> world" where
  "fetch_tennis_matches E dt w = leagues_loop E ''tennis'' dt TENNIS_LEAGUES [] w"

definition fetch_basket_matches ::
  "env \<Rightarrow> int \<Rightarrow> string \<Rightarrow> string \<Rightarrow> world \<Rightarrow> (error + match list) \<times> world" where
  "fetch_basket_matches E dt league_code lname w =
     (case espn_scoreboard E ''basketball'' league_code dt w of
        (r, w1) \<Rightarrow>
          (case bind r (\<lambda>sb. parse_espn_events_to_matches ''basketball'' sb league_code lname) of
             Inl e \<Rightarrow> (Inr [], w1)
           | Inr ms \<Rightarrow> (Inr ms, w1)))"

definition fetch_nfl_matches :: "env \<Rightarrow> int \<Rightarrow> world \<Rightarrow> (error + match list) \<times> world" where
  "fetch_nfl_matches E dt w =
     (case espn_scoreboard E ''football'' ''nfl'' dt w of
        (r, w1) \<Rightarrow> (bind r (\<lambda>sb. parse_espn_events_to_matches ''nfl'' sb ''nfl'' ''NFL''), w1))"

definition fetch_nhl_matches_espn :: "env \<Rightarrow> int \<Rightarrow> world \<Rightarrow> (error + match list) \<times> world" where
  "fetch_nhl_matches_espn E dt w =
     (case espn_scoreboard E ''hockey'' ''nhl'' dt w of
        (r, w1) \<Rightarrow> (bind r (\<lambda>sb. parse_espn_events_to_matches ''nhl'' sb ''nhl'' ''NHL''), w1))"

definition fetch_mlb_matches_espn :: "env \<Rightarrow> int \<Rightarrow> world \<Rightarrow> (error + match list) \<times> world" where
  "fetch_mlb_matches_espn E dt w =
     (case espn_scoreboard E ''baseball'' ''mlb'' dt w of
        (r, w1) \<Rightarrow> (bind r (\<lambda>sb. parse_espn_events_to_matches ''mlb'' sb ''mlb'' ''MLB''), w1))"

subsection \<open>The aggregate of a multi-league sport as the specification words it\<close>

text \<open>One league on its own: the fetch, then the normalizer.\<close>

definition league_matches ::
  "env \<Rightarrow> string \<Rightarrow> int \<Rightarrow> string \<times> string \<Rightarrow> world \<Rightarrow> (error + match list) \<times> world" where
  "league_matches E sp dt lg w =
     (case espn_scoreboard E sp (fst lg) dt w of
        (r, w1) \<Rightarrow> (bind r (\<lambda>sb. parse_espn_events_to_matches sp sb (fst lg) (snd lg)), w1))"

text \<open>
  The leagues are asked in turn; a league that succeeds contributes its matches, a league
  that fails contributes none.
\<close>

fun union_of_succeeded ::
  "env \<Rightarrow> string \<Rightarrow> int \<Rightarrow> (string \<times> string) list \<Rightarrow> world \<Rightarrow> match list \<times> world" where
  "union_of_succeeded E sp dt [] w = ([], w)"
| "union_of_succeeded E sp dt (lg # rest) w =
     (case league_matches E sp dt lg w of
        (r, w1) \<Rightarrow>
          (case union_of_succeeded E sp dt rest w1 of
             (ms, w2) \<Rightarrow> ((case r of Inl e \<Rightarrow> [] | Inr own \<Rightarrow> own) @ ms, w2)))"

section \<open>The enrichment fetchers\<close>

text \<open>\<open>try: ... except Exception: return d\<close> around a whole function body.\<close>

definition try_except :: "(error + 'a) \<times> world \<Rightarrow> 'a \<Rightarrow> (error + 'a) \<times> world" where
  "try_except r d = (case r of (Inl e, w) \<Rightarrow> (Inr d, w) | (Inr v, w) \<Rightarrow> (Inr v, w))"

definition FORM_UNAVAILABLE :: string where
  "FORM_UNAVAILABLE = ([CHR 0xF0, CHR 0x9F, CHR 0x93, CHR 0x88] @ '' Forme: indisponible'')"

definition FORM_HEADER :: string where
  "FORM_HEADER = ([CHR 0xF0, CHR 0x9F, CHR 0x93, CHR 0x88] @ '' Forme (5 derniers):'' @ [CHR 0x0A] @ ''- '')"

text \<open>
  \<open>(c.get("team") or {}).get("abbreviation") or (c.get("team") or {}).get("displayName")
  or placeholder\<close>
\<close>

definition team_abbreviation :: "json \<Rightarrow> string \<Rightarrow> error + json" where
  "team_abbreviation c placeholder =
     bind (dict_get c ''team'' JNull) (\<lambda>t.
     let team = py_or t (JObj []) in
     bind (dict_get team ''abbreviation'' JNull) (\<lambda>a.
     if truthy a then Inr a
     else bind (dict_get team ''displayName'' JNull) (\<lambda>d.
          Inr (py_or d (JStr placeholder)))))"

definition competitor_team_id :: "json \<Rightarrow> error + string" where
  "competitor_team_id c =
     bind (dict_get c ''team'' JNull) (\<lambda>t.
     bind (dict_get (py_or t (JObj [])) ''id'' (JStr [])) (\<lambda>i.
     Inr (py_str i)))"

definition competitor_score :: "json \<Rightarrow> error + int" where
  "competitor_score c = bind (dict_get c ''score'' JNull) (\<lambda>s. py_int (py_or s (JStr ''0'')))"

definition win_loss :: "int \<Rightarrow> int \<Rightarrow> string" where
  "win_loss own other = (if own > other then ''W'' else if own < other then ''L'' else ''D'')"

text \<open>
  One pass through the body of the loop of \<open>team_form_espn\<close>: \<open>Inr None\<close> is
  \<open>continue\<close>, \<open>Inr (Some line)\<close> the line appended to \<open>results\<close>.
\<close>

definition form_event :: "env \<Rightarrow> string \<Rightarrow> json \<Rightarrow> error + string option" where
  "form_event E team_id ev =
     bind (dict_get ev ''competitions'' (JArr [])) (\<lambda>c0.
     let competitions = py_or c0 (JArr []) in
     if \<not> truthy competitions then Inr None
     else
     bind (py_index competitions 0) (\<lambda>comp.
     bind (dict_get comp ''status'' (JObj [])) (\<lambda>s0.
     bind (dict_get (py_or s0 (JObj [])) ''type'' (JObj [])) (\<lambda>t0.
     let status = py_or t0 (JObj []) in
     bind (dict_get status ''completed'' JNull) (\<lambda>completed.
     if \<not> truthy completed then Inr None
     else
     bind (dict_get comp ''competitors'' (JArr [])) (\<lambda>cs0.
     let comps = py_or cs0 (JArr []) in
     bind (py_len comps) (\<lambda>n.
     if n < 2 then Inr None
     else
     bind (py_index comps 0) (\<lambda>c1.
     bind (py_index comps 1) (\<lambda>c2.
     bind (competitor_score c1) (\<lambda>s1.
     bind (competitor_score c2) (\<lambda>s2.
     bind (team_abbreviation c1 ''T1'') (\<lambda>n1.
     bind (team_abbreviation c2 ''T2'') (\<lambda>n2.
     bind (dict_get ev ''date'' (JStr [])) (\<lambda>evdate.
     bind (dict_get comp ''date'' evdate) (\<lambda>d.
     let date = fmt_dt E d in
     bind (competitor_team_id c1) (\<lambda>team1_id.
     bind (competitor_team_id c2) (\<lambda>team2_id.
     if team1_id = team_id then
       Inr (Some (win_loss s1 s2 @ '' '' @ py_str n1 @ '' '' @ show_int s1 @ ''-'' @ show_int s2
                  @ '' '' @ py_str n2 @ '' ('' @ py_str date @ '')''))
     else if team2_id = team_id then
       Inr (Some (win_loss s2 s1 @ '' '' @ py_str n1 @ '' '' @ show_int s1 @ ''-'' @ show_int s2
                  @ '' '' @ py_str n2 @ '' ('' @ py_str date @ '')''))
     else Inr None)))))))))))))))))"

fun form_loop :: "env \<Rightarrow> string \<Rightarrow> json list \<Rightarrow> string list \<Rightarrow> error + string list" where
  "form_loop E team_id [] results = Inr results"
| "form_loop E team_id (ev # evs) results =
     (case form_event E team_id ev of
        Inl e \<Rightarrow> Inl e
      | Inr None \<Rightarrow> form_loop E team_id evs results
      | Inr (Some line) \<Rightarrow>
          if length (results @ [line]) \<ge> 5 then Inr (results @ [line])
          else form_loop E team_id evs (results @ [line]))"

definition team_form_body ::
  "env \<Rightarrow> string \<Rightarrow> string \<Rightarrow> string \<Rightarrow> world \<Rightarrow> (error + string) \<times> world" where
  "team_form_body E sport_path lg team_id w =
     (case http_get_json E
             (ESPN_BASE @ ''/sports/'' @ sport_path @ ''/'' @ lg @ ''/teams/'' @ team_id
              @ ''/schedule'')
             [(''limit'', JNum 25)] w of
        (r, w1) \<Rightarrow>
          (bind r (\<lambda>data.
           bind (dict_get data ''events'' (JArr [])) (\<lambda>e.
           bind (py_iter (py_or e (JArr []))) (\<lambda>events.
           bind (form_loop E team_id events []) (\<lambda>results.
           Inr (if results \<noteq> [] then FORM_HEADER @ join ([CHR 0x0A] @ ''- '') results
                else FORM_UNAVAILABLE))))), w1))"

definition team_form_espn ::
  "env \<Rightarrow> string \<Rightarrow> string \<Rightarrow> string \<Rightarrow> world \<Rightarrow> (error + string) \<times> world" where
  "team_form_espn E sport_path lg team_id w =
     try_except (team_form_body E sport_path lg team_id w) FORM_UNAVAILABLE"

definition GOALIES_UNAVAILABLE :: string where
  "GOALIES_UNAVAILABLE = ([CHR 0xF0, CHR 0x9F, CHR 0xA7, CHR 0xA4] @ '' Gardiens probables: indisponible'')"

definition PITCHERS_UNAVAILABLE :: string where
  "PITCHERS_UNAVAILABLE = ([CHR 0xE2, CHR 0x9A, CHR 0xBE] @ '' Lanceurs probables: indisponible'')"

text \<open>
  The lines that \<open>nhl_goalies\<close> and \<open>mlb_pitchers\<close> both build from the two names: the
  away line first, each only when its name is truthy.
\<close>

definition starter_lines :: "string \<Rightarrow> json \<Rightarrow> json \<Rightarrow> string" where
  "starter_lines header a h =
     join [CHR 0x0A]
       ([header]
        @ (if truthy a then [(''- Ext'' @ [CHR 0xC3, CHR 0xA9] @ ''rieur: '') @ py_str a] else [])
        @ (if truthy h then [''- Domicile: '' @ py_str h] else []))"

definition nhl_goalies_body :: "env \<Rightarrow> string \<Rightarrow> world \<Rightarrow> (error + string) \<times> world" where
  "nhl_goalies_body E game_id w =
     (case http_get_json E (''https://api-web.nhle.com/v1/gamecenter/'' @ game_id @ ''/landing'')
             [] w of
        (r, w1) \<Rightarrow>
          (bind r (\<lambda>landing.
           bind (dict_get landing ''matchup'' (JObj [])) (\<lambda>m0.
           bind (dict_get (py_or m0 (JObj [])) ''goalies'' (JObj [])) (\<lambda>g0.
           let goalies = py_or g0 (JObj []) in
           bind (dict_get goalies ''home'' (JObj [])) (\<lambda>h0.
           bind (dict_get (py_or h0 (JObj [])) ''playerName'' JNull) (\<lambda>h.
           bind (dict_get goalies ''away'' (JObj [])) (\<lambda>a0.
           bind (dict_get (py_or a0 (JObj [])) ''playerName'' JNull) (\<lambda>a.
           if \<not> truthy (py_or h a) then Inr GOALIES_UNAVAILABLE
           else Inr (starter_lines ([CHR 0xF0, CHR 0x9F, CHR 0xA7, CHR 0xA4] @ '' Gardiens probables (si dispo):'') a h)))))))), w1))"

definition nhl_goalies :: "env \<Rightarrow> string \<Rightarrow> world \<Rightarrow> (error + string) \<times> world" where
  "nhl_goalies E game_id w = try_except (nhl_goalies_body E game_id w) GOALIES_UNAVAILABLE"

definition mlb_pitchers_body :: "env \<Rightarrow> string \<Rightarrow> world \<Rightarrow> (error + string) \<times> world" where
  "mlb_pitchers_body E game_pk w =
     (case http_get_json E (''https://statsapi.mlb.com/api/v1.1/game/'' @ game_pk @ ''/feed/live'')
             [] w of
        (r, w1) \<Rightarrow>
          (bind r (\<lambda>data.
           bind (dict_get data ''gameData'' (JObj [])) (\<lambda>gd0.
           bind (dict_get (py_or gd0 (JObj [])) ''probablePitchers'' (JObj [])) (\<lambda>pp0.
           let pp = py_or pp0 (JObj []) in
           bind (dict_get pp ''home'' (JObj [])) (\<lambda>h0.
           bind (dict_get (py_or h0 (JObj [])) ''fullName'' JNull) (\<lambda>hp.
           bind (dict_get pp ''away'' (JObj [])) (\<lambda>a0.
           bind (dict_get (py_or a0 (JObj [])) ''fullName'' JNull) (\<lambda>ap.
           if \<not> truthy (py_or hp ap) then Inr PITCHERS_UNAVAILABLE
           else Inr (starter_lines ([CHR 0xE2, CHR 0x9A, CHR 0xBE] @ '' Lanceurs probables (si dispo):'') ap hp)))))))), w1))"

definition mlb_pitchers :: "env \<Rightarrow> string \<Rightarrow> world \<Rightarrow> (error + string) \<times> world" where
  "mlb_pitchers E game_pk w = try_except (mlb_pitchers_body E game_pk w) PITCHERS_UNAVAILABLE"

text \<open>The lines of the events that qualify, in the order of the payload.\<close>

definition form_lines :: "env \<Rightarrow> string \<Rightarrow> json list \<Rightarrow> string list" where
  "form_lines E team_id evs =
     concat (map (\<lambda>ev. case form_event E team_id ev of Inr (Some line) \<Rightarrow> [line] | _ \<Rightarrow> []) evs)"

section \<open>Menus\<close>

type_synonym button = "string \<times> string"

type_synonym keyboard = "button list list"

definition SPORT_LABELS :: "(string \<times> string) list" where
  "SPORT_LABELS =
     [(''soccer'', ([CHR 0xE2, CHR 0x9A, CHR 0xBD] @ '' Foot'')),
      (''basketball'', ([CHR 0xF0, CHR 0x9F, CHR 0x8F, CHR 0x80] @ '' Basket'')),
      (''tennis'', ([CHR 0xF0, CHR 0x9F, CHR 0x8E, CHR 0xBE] @ '' Tennis'')),
      (''nhl'', ([CHR 0xF0, CHR 0x9F, CHR 0x8F, CHR 0x92] @ '' NHL'')),
      (''nfl'', ([CHR 0xF0, CHR 0x9F, CHR 0x8F, CHR 0x88] @ '' NFL'')),
      (''mlb'', ([CHR 0xE2, CHR 0x9A, CHR 0xBE] @ '' MLB''))]"

definition markets_for :: "string \<Rightarrow> string list" where
  "markets_for sp =
     (if sp = ''soccer'' then
        [''1X2'', ''Double chance (1X/12/X2)'', ''Over/Under 2.5'', ''BTTS'', ''Handicap (indicatif)'']
      else if sp = ''basketball'' then
        [''Moneyline'', ''Spread (indicatif)'', ''Total points (O/U)'', ''Mi-temps'', ''Team totals'']
      else if sp = ''tennis'' then
        [''Vainqueur'', ''Nombre de sets'', ''O/U jeux'', ''Handicap jeux'', ''Vainqueur 1er set'']
      else if sp = ''nhl'' then
        [''Moneyline'', ''Puck line'', ''Total buts (O/U)'', ''1er tiers'', ''Team totals'']
      else if sp = ''nfl'' then
        [''Moneyline'', ''Spread'', ''Total points (O/U)'', ''Team totals'', ''Mi-temps'']
      else if sp = ''mlb'' then
        [''Moneyline'', ''Run line'', ''Total runs (O/U)'', ''1st 5 innings'', ''Team totals'']
      else [])"

definition CLOSE_ROW :: "button list" where
  "CLOSE_ROW = [(([CHR 0xE2, CHR 0x9D, CHR 0x8C] @ '' Fermer''), ''close|x'')]"

definition BACK_SPORTS_ROW :: "button list" where
  "BACK_SPORTS_ROW = [(([CHR 0xE2, CHR 0xAC, CHR 0x85, CHR 0xEF, CHR 0xB8, CHR 0x8F] @ '' Retour sports''), ''back|sports'')]"

definition BACK_DATES_ROW :: "button list" where
  "BACK_DATES_ROW = [(([CHR 0xE2, CHR 0xAC, CHR 0x85, CHR 0xEF, CHR 0xB8, CHR 0x8F] @ '' Retour''), ''back|dates'')]"

definition MENU_SPORTS_ROW :: "button list" where
  "MENU_SPORTS_ROW = [(([CHR 0xF0, CHR 0x9F, CHR 0x8F, CHR 0xA0] @ '' Menu sports''), ''back|sports'')]"

text \<open>\<open>items[i:i+2]\<close> for \<open>i\<close> in \<open>range(0, len(items), 2)\<close>\<close>

fun pairs_of :: "'a list \<Rightarrow> 'a list list" where
  "pairs_of [] = []"
| "pairs_of [x] = [[x]]"
| "pairs_of (x # y # zs) = [x, y] # pairs_of zs"

definition kb_sports :: keyboard where
  "kb_sports =
     map (map (\<lambda>(k, label). (label, ''sport|'' @ k))) (pairs_of SPORT_LABELS) @ [CLOSE_ROW]"

definition kb_dates :: keyboard where
  "kb_dates =
     [[(([CHR 0xF0, CHR 0x9F, CHR 0x93, CHR 0x85] @ '' Aujourd'' @ [CHR 0xE2, CHR 0x80, CHR 0x99] @ ''hui''), ''date|today''), (([CHR 0xF0, CHR 0x9F, CHR 0x93, CHR 0x85] @ '' Demain''), ''date|tomorrow'')],
      BACK_SPORTS_ROW,
      CLOSE_ROW]"

definition kb_basket_leagues :: keyboard where
  "kb_basket_leagues =
     map (\<lambda>(code, name). [(([CHR 0xF0, CHR 0x9F, CHR 0x8F, CHR 0x80] @ '' '') @ name, ''bleague|'' @ code)]) BASKET_LEAGUES
     @ [BACK_SPORTS_ROW, CLOSE_ROW]"

definition DASH :: string where
  "DASH = ('' '' @ [CHR 0xE2, CHR 0x80, CHR 0x94] @ '' '')"

definition TROPHY :: string where
  "TROPHY = ([CHR 0xF0, CHR 0x9F, CHR 0x8F, CHR 0x86] @ '' '')"

text \<open>The two rows that \<open>kb_matches\<close> shows for one match.\<close>

definition match_rows :: "env \<Rightarrow> match \<Rightarrow> keyboard" where
  "match_rows E m =
     (let comp = (if league_name m \<noteq> [] then league_name m
                  else if league m \<noteq> [] then league m else [])
      in [[(py_str (fmt_dt E (start_time m)) @ DASH @ py_str (away m) @ '' @ ''
              @ py_str (home m),
            ''match|'' @ match_id m)],
          [(TROPHY @ comp, ''noop|x'')]])"

definition PREVIOUS :: string where
  "PREVIOUS = ([CHR 0xE2, CHR 0xAC, CHR 0x85, CHR 0xEF, CHR 0xB8, CHR 0x8F] @ '' Pr'' @ [CHR 0xC3, CHR 0xA9] @ ''c'' @ [CHR 0xC3, CHR 0xA9] @ ''dent'')"

definition NEXT :: string where
  "NEXT = ([CHR 0xE2, CHR 0x9E, CHR 0xA1, CHR 0xEF, CHR 0xB8, CHR 0x8F] @ '' Suivant'')"

definition kb_matches :: "env \<Rightarrow> match list \<Rightarrow> int \<Rightarrow> int \<Rightarrow> keyboard" where
  "kb_matches E matches page page_size =
     (let start = page * page_size;
          stop = start + page_size;
          chunk = py_slice matches start stop;
          nav = (if page > 0 then [(PREVIOUS, ''page|'' @ show_int (page - 1))] else [])
                @ (if stop < int (length matches) then [(NEXT, ''page|'' @ show_int (page + 1))]
                   else [])
      in concat (map (match_rows E) chunk)
         @ (if nav \<noteq> [] then [nav] else [])
         @ [BACK_DATES_ROW, MENU_SPORTS_ROW, CLOSE_ROW])"

section \<open>The conversation controller\<close>

text \<open>
  \<open>context.user_data\<close>: a dict in which each of the five keys may be absent.
\<close>

record user_data =
  ud_sport :: "string option"
  ud_page :: "int option"
  ud_basket_league :: "(string \<times> string) option"
  ud_date_choice :: "string option"
  ud_matches :: "match list option"

definition cleared :: user_data where
  "cleared = \<lparr> ud_sport = None, ud_page = None, ud_basket_league = None,
               ud_date_choice = None, ud_matches = None \<rparr>"

text \<open>
  What one call of \<open>on_button\<close> leaves behind: the exception it raised, if any, the user
  data, the shared state, and the texts and keyboards it sent with \<open>edit_message_text\<close>,
  in order.
\<close>

type_synonym screen = "string \<times> keyboard option"

record outcome =
  raised :: "error option"
  user :: user_data
  world_after :: world
  screens :: "screen list"

definition finish :: "user_data \<Rightarrow> world \<Rightarrow> screen list \<Rightarrow> outcome" where
  "finish ud w scr = \<lparr> raised = None, user = ud, world_after = w, screens = scr \<rparr>"

definition abort :: "error \<Rightarrow> user_data \<Rightarrow> world \<Rightarrow> screen list \<Rightarrow> outcome" where
  "abort e ud w scr = \<lparr> raised = Some e, user = ud, world_after = w, screens = scr \<rparr>"

definition CHOOSE_SPORT :: string where
  "CHOOSE_SPORT = (''Choisis un sport '' @ [CHR 0xF0, CHR 0x9F, CHR 0x91, CHR 0x87])"

definition CHOOSE_DATE :: string where
  "CHOOSE_DATE = (''Choisis aujourd'' @ [CHR 0xE2, CHR 0x80, CHR 0x99] @ ''hui ou demain '' @ [CHR 0xF0, CHR 0x9F, CHR 0x91, CHR 0x87])"

definition MATCH_NOT_FOUND :: string where
  "MATCH_NOT_FOUND = ''Erreur: match introuvable dans la liste. Reviens au menu.''"

definition PREPARING :: string where
  "PREPARING = ([CHR 0xF0, CHR 0x9F, CHR 0x93, CHR 0x84] @ '' Je pr'' @ [CHR 0xC3, CHR 0xA9] @ ''pare la fiche'' @ [CHR 0xE2, CHR 0x80, CHR 0xA6])"

definition BACK_TO_LIST :: string where
  "BACK_TO_LIST = ([CHR 0xE2, CHR 0xAC, CHR 0x85, CHR 0xEF, CHR 0xB8, CHR 0x8F] @ '' Retour liste'')"

text \<open>\<open>context.user_data.get("matches", []) or []\<close>\<close>

definition stored :: "user_data \<Rightarrow> match list" where
  "stored ud = (case ud_matches ud of Some ms \<Rightarrow> ms | None \<Rightarrow> [])"

text \<open>\<open>SPORT_LABELS.get(sport, sport)\<close> inside an f-string; \<open>sport\<close> may be \<open>None\<close>.\<close>

definition sport_label :: "string option \<Rightarrow> string" where
  "sport_label sp =
     (case sp of
        None \<Rightarrow> ''None''
      | Some s \<Rightarrow> (case map_of SPORT_LABELS s of Some l \<Rightarrow> l | None \<Rightarrow> s))"

definition list_title :: "string option \<Rightarrow> string option \<Rightarrow> string" where
  "list_title sp choice =
     ''Matchs '' @ sport_label sp @ ('' '' @ [CHR 0xE2, CHR 0x80, CHR 0x94] @ '' '')
     @ (if choice = Some ''tomorrow'' then ''Demain'' else (''Aujourd'' @ [CHR 0xE2, CHR 0x80, CHR 0x99] @ ''hui''))"

text \<open>The branch on the sport that picks the pipeline of the date action.\<close>

definition fetch_for_sport ::
  "env \<Rightarrow> string \<Rightarrow> user_data \<Rightarrow> int \<Rightarrow> world \<Rightarrow> (error + match list) \<times> world" where
  "fetch_for_sport E sp ud dt w =
     (if sp = ''soccer'' then fetch_soccer_matches E dt w
      else if sp = ''basketball'' then
        (case (case ud_basket_league ud of Some cn \<Rightarrow> cn | None \<Rightarrow> (''nba'', ''NBA'')) of
           (code, name) \<Rightarrow> fetch_basket_matches E dt code name w)
      else if sp = ''tennis'' then fetch_tennis_matches E dt w
      else if sp = ''nhl'' then fetch_nhl_matches_espn E dt w
      else if sp = ''nfl'' then fetch_nfl_matches E dt w
      else if sp = ''mlb'' then fetch_mlb_matches_espn E dt w
      else (Inr [], w))"

definition on_date :: "env \<Rightarrow> string list \<Rightarrow> user_data \<Rightarrow> world \<Rightarrow> outcome" where
  "on_date E parts ud w =
     (case ud_sport ud of
        None \<Rightarrow> finish ud w [(CHOOSE_SPORT, Some kb_sports)]
      | Some sp \<Rightarrow>
          if sp = [] then finish ud w [(CHOOSE_SPORT, Some kb_sports)]
          else
          (case part parts 1 of
             Inl e \<Rightarrow> abort e ud w []
           | Inr choice \<Rightarrow>
               let dt = utc_today E (now w) + (if choice = ''tomorrow'' then 1 else 0);
                   ud1 = ud\<lparr>ud_date_choice := Some choice, ud_page := Some 0\<rparr>;
                   scr1 = [(([CHR 0xF0, CHR 0x9F, CHR 0x94, CHR 0x8E] @ '' Je r'' @ [CHR 0xC3, CHR 0xA9] @ ''cup'' @ [CHR 0xC3, CHR 0xA8] @ ''re les matchs'' @ [CHR 0xE2, CHR 0x80, CHR 0xA6]), None)]
               in (case fetch_for_sport E sp ud1 dt w of
                     (Inl e, w1) \<Rightarrow> abort e ud1 w1 scr1
                   | (Inr fetched, w1) \<Rightarrow>
                       (case py_sort start_time fetched of
                          Inl e \<Rightarrow> abort e ud1 w1 scr1
                        | Inr matches \<Rightarrow>
                            let ud2 = ud1\<lparr>ud_matches := Some matches\<rparr>
                            in if matches = [] then
                                 finish ud2 w1
                                   (scr1 @ [((''Aucun match trouv'' @ [CHR 0xC3, CHR 0xA9] @ ''.''), Some [MENU_SPORTS_ROW])])
                               else
                                 finish ud2 w1
                                   (scr1 @ [(list_title (Some sp) (Some choice),
                                             Some (kb_matches E matches 0 10))])))))"

definition on_page :: "env \<Rightarrow> string list \<Rightarrow> user_data \<Rightarrow> world \<Rightarrow> outcome" where
  "on_page E parts ud w =
     (case bind (part parts 1) int_of_str of
        Inl e \<Rightarrow> abort e ud w []
      | Inr page \<Rightarrow>
          let matches = stored ud;
              ud1 = ud\<lparr>ud_page := Some page\<rparr>
          in finish ud1 w
               [(list_title (ud_sport ud) (ud_date_choice ud),
                 Some (kb_matches E matches page 10))])"

text \<open>Sequencing of fallible steps that also change the shared state.\<close>

definition bindw ::
  "(world \<Rightarrow> (error + 'a) \<times> world) \<Rightarrow> ('a \<Rightarrow> world \<Rightarrow> (error + 'b) \<times> world)
   \<Rightarrow> world \<Rightarrow> (error + 'b) \<times> world" where
  "bindw m f w = (case m w of (Inl e, w1) \<Rightarrow> (Inl e, w1) | (Inr v, w1) \<Rightarrow> f v w1)"

definition both_forms ::
  "env \<Rightarrow> string \<Rightarrow> string \<Rightarrow> match \<Rightarrow> world \<Rightarrow> (error + string \<times> string) \<times> world" where
  "both_forms E sport_path lg picked =
     bindw (team_form_espn E sport_path lg (home_id picked)) (\<lambda>form_home.
     bindw (team_form_espn E sport_path lg (away_id picked)) (\<lambda>form_away.
     (\<lambda>w. (Inr (form_home, form_away), w))))"

text \<open>The branch on the sport that fills \<open>form_home\<close> and \<open>form_away\<close>.\<close>

definition forms_for_sport ::
  "env \<Rightarrow> string \<Rightarrow> match \<Rightarrow> world \<Rightarrow> (error + string \<times> string) \<times> world" where
  "forms_for_sport E sp picked =
     (if sp = ''soccer'' then both_forms E ''soccer'' (league picked) picked
      else if sp = ''basketball'' then both_forms E ''basketball'' (league picked) picked
      else if sp = ''nfl'' then both_forms E ''football'' ''nfl'' picked
      else if sp = ''nhl'' then both_forms E ''hockey'' ''nhl'' picked
      else if sp = ''mlb'' then both_forms E ''baseball'' ''mlb'' picked
      else (\<lambda>w. (Inr (FORM_UNAVAILABLE, FORM_UNAVAILABLE), w)))"

definition MLB_CAVEAT :: string where
  "MLB_CAVEAT = ([CHR 0xE2, CHR 0x9A, CHR 0xA0, CHR 0xEF, CHR 0xB8, CHR 0x8F] @ '' Pitchers MLB: dispo si ID correspond '' @ [CHR 0xC3, CHR 0xA0] @ '' StatsAPI (sinon ignore).'')"

definition extra_lines_for ::
  "env \<Rightarrow> string \<Rightarrow> string \<Rightarrow> world \<Rightarrow> (error + string list) \<times> world" where
  "extra_lines_for E sp mid =
     bindw (if sp = ''nhl'' then bindw (nhl_goalies E mid) (\<lambda>g w. (Inr [g], w))
            else (\<lambda>w. (Inr [], w))) (\<lambda>l1.
     if sp = ''mlb'' then bindw (mlb_pitchers E mid) (\<lambda>p w. (Inr (l1 @ [MLB_CAVEAT, p]), w))
     else (\<lambda>w. (Inr l1, w)))"

definition HOME_ICON :: string where
  "HOME_ICON = ([CHR 0xF0, CHR 0x9F, CHR 0x8F, CHR 0xA0] @ '' '')"

definition AWAY_ICON :: string where
  "AWAY_ICON = ([CHR 0xF0, CHR 0x9F, CHR 0x9A, CHR 0x8C] @ '' '')"

text \<open>The list \<open>text\<close> of the match page, before it is joined with newlines.\<close>

definition detail_lines ::
  "env \<Rightarrow> string \<Rightarrow> match \<Rightarrow> string \<Rightarrow> string \<Rightarrow> string list \<Rightarrow> string list" where
  "detail_lines E sp picked form_home form_away extra_lines =
     [([CHR 0xE2, CHR 0x9C, CHR 0x85] @ '' '') @ sport_label (Some sp),
      py_str (fmt_dt E (start_time picked)) @ ('' '' @ [CHR 0xE2, CHR 0x80, CHR 0x94] @ '' '') @ py_str (away picked) @ '' @ ''
        @ py_str (home picked)]
     @ (if league_name picked \<noteq> [] then [([CHR 0xF0, CHR 0x9F, CHR 0x8F, CHR 0x86] @ '' '') @ league_name picked] else [])
     @ [[],
        ([CHR 0xE2, CHR 0x80, CHR 0x94] @ '' Forme '' @ [CHR 0xE2, CHR 0x80, CHR 0x94]),
        HOME_ICON @ py_str (home picked) @ [CHR 0x0A] @ form_home,
        [],
        AWAY_ICON @ py_str (away picked) @ [CHR 0x0A] @ form_away]
     @ (if extra_lines \<noteq> [] then [] # extra_lines else [])
     @ [[], ([CHR 0xF0, CHR 0x9F, CHR 0x8E, CHR 0xAF] @ '' Possibilit'' @ [CHR 0xC3, CHR 0xA9] @ ''s de paris :'')]
     @ map (\<lambda>m. ''- '' @ m) (markets_for sp)
     @ [[], ([CHR 0xE2, CHR 0x9A, CHR 0xA0, CHR 0xEF, CHR 0xB8, CHR 0x8F] @ '' Info & analyse = aide '' @ [CHR 0xC3, CHR 0xA0] @ '' la d'' @ [CHR 0xC3, CHR 0xA9] @ ''cision, pas une garantie de gains.'')]"

definition detail_text ::
  "env \<Rightarrow> string \<Rightarrow> match \<Rightarrow> string \<Rightarrow> string \<Rightarrow> string list \<Rightarrow> string" where
  "detail_text E sp picked form_home form_away extra_lines =
     join [CHR 0x0A] (detail_lines E sp picked form_home form_away extra_lines)"

definition detail_keyboard :: "user_data \<Rightarrow> keyboard" where
  "detail_keyboard ud =
     [[(BACK_TO_LIST, ''page|'' @ show_int (case ud_page ud of Some p \<Rightarrow> p | None \<Rightarrow> 0))],
      MENU_SPORTS_ROW]"

definition on_match :: "env \<Rightarrow> string list \<Rightarrow> user_data \<Rightarrow> world \<Rightarrow> outcome" where
  "on_match E parts ud w =
     (case part parts 1 of
        Inl e \<Rightarrow> abort e ud w []
      | Inr mid \<Rightarrow>
          let matches = stored ud;
              picked = find (\<lambda>m. match_id m = mid) matches
          in (case (ud_sport ud, picked) of
                (Some sp, Some m) \<Rightarrow>
                  if sp = [] then finish ud w [(MATCH_NOT_FOUND, Some kb_sports)]
                  else
                  (let scr1 = [(PREPARING, None)]
                   in case bindw (forms_for_sport E sp m) (\<lambda>forms.
                           bindw (extra_lines_for E sp mid) (\<lambda>extra w'.
                           (Inr (detail_text E sp m (fst forms) (snd forms) extra), w'))) w of
                        (Inl e, w1) \<Rightarrow> abort e ud w1 scr1
                      | (Inr text, w1) \<Rightarrow>
                          finish ud w1 (scr1 @ [(text, Some (detail_keyboard ud))]))
              | _ \<Rightarrow> finish ud w [(MATCH_NOT_FOUND, Some kb_sports)]))"

definition on_button :: "env \<Rightarrow> string \<Rightarrow> user_data \<Rightarrow> world \<Rightarrow> outcome" where
  "on_button E data ud w =
     (let parts = split_bar data; action = hd parts
      in if action = ''noop'' then finish ud w []
         else if action = ''close'' then finish ud w [((''Menu ferm'' @ [CHR 0xC3, CHR 0xA9] @ '' '' @ [CHR 0xE2, CHR 0x9C, CHR 0x85]), None)]
         else if action = ''back'' \<and> part parts 1 = Inl IndexError then abort IndexError ud w []
         else if action = ''back'' \<and> part parts 1 = Inr ''sports'' then
           finish cleared w [(CHOOSE_SPORT, Some kb_sports)]
         else if action = ''back'' \<and> part parts 1 = Inr ''dates'' then
           finish ud w [(CHOOSE_DATE, Some kb_dates)]
         else if action = ''sport'' then
           (case part parts 1 of
              Inl e \<Rightarrow> abort e ud w []
            | Inr sp \<Rightarrow>
                let ud1 = cleared\<lparr>ud_sport := Some sp, ud_page := Some 0\<rparr>
                in if sp = ''basketball'' then
                     finish ud1 w [((''Choisis la comp'' @ [CHR 0xC3, CHR 0xA9] @ ''tition basket '' @ [CHR 0xF0, CHR 0x9F, CHR 0x91, CHR 0x87]), Some kb_basket_leagues)]
                   else finish ud1 w [(CHOOSE_DATE, Some kb_dates)])
         else if action = ''bleague'' then
           (case part parts 1 of
              Inl e \<Rightarrow> abort e ud w []
            | Inr code \<Rightarrow>
                let name = (case map_of BASKET_LEAGUES code of Some n \<Rightarrow> n | None \<Rightarrow> code)
                in finish (ud\<lparr>ud_basket_league := Some (code, name)\<rparr>) w
                     [(''Basket: '' @ name @ [CHR 0x0A, CHR 0x0A] @ CHOOSE_DATE, Some kb_dates)])
         else if action = ''date'' then on_date E parts ud w
         else if action = ''page'' then on_page E parts ud w
         else if action = ''match'' then on_match E parts ud w
         else finish ud w [(''Commande inconnue. Tape /menu'', None)])"

section \<open>Concrete surroundings used to run the model\<close>

definition fresh_world :: world where
  "fresh_world = \<lparr> now = 0, CACHE = [], trace = [] \<rparr>"

text \<open>Every request fails at once.\<close>

definition down_env :: env where
  "down_env = \<lparr> net = (\<lambda>url params t. (Inl UpstreamError, t)), utc_today = (\<lambda>t. 0),
                ymd = (\<lambda>d. ''20240101''), local_fmt = (\<lambda>s. None) \<rparr>"

definition wta_board :: json where
  "wta_board =
     JObj [(''events'', JArr [JObj [(''id'', JStr ''77''), (''date'', JStr ''2024-01-01T10:00Z''),
       (''competitions'', JArr [JObj [(''competitors'', JArr [
          JObj [(''homeAway'', JStr ''home''),
                (''team'', JObj [(''id'', JStr ''1''), (''displayName'', JStr ''A'')])],
          JObj [(''homeAway'', JStr ''away''),
                (''team'', JObj [(''id'', JStr ''2''), (''displayName'', JStr ''B'')])]])]])]])]"

text \<open>Only the WTA scoreboard answers; every request takes a second.\<close>

definition wta_only_env :: env where
  "wta_only_env =
     \<lparr> net = (\<lambda>url params t.
          if url = ESPN_BASE @ ''/sports/tennis/wta/scoreboard'' then (Inr wta_board, t + 1)
          else (Inl UpstreamError, t + 1)),
       utc_today = (\<lambda>t. 0), ymd = (\<lambda>d. ''20240101''), local_fmt = (\<lambda>s. None) \<rparr>"

definition two_teams :: "string \<Rightarrow> string \<Rightarrow> json" where
  "two_teams a b =
     JArr [JObj [(''homeAway'', JStr ''home''),
                 (''team'', JObj [(''id'', JStr ''1''), (''displayName'', JStr a)])],
           JObj [(''homeAway'', JStr ''away''),
                 (''team'', JObj [(''id'', JStr ''2''), (''displayName'', JStr b)])]]"

text \<open>A scoreboard whose later game comes first.\<close>

definition nba_board :: json where
  "nba_board =
     JObj [(''events'',
       JArr [JObj [(''id'', JStr ''9''), (''date'', JStr ''2024-01-01T23:00Z''),
                   (''competitions'', JArr [JObj [(''competitors'', two_teams ''C'' ''D'')]])],
             JObj [(''id'', JStr ''8''), (''date'', JStr ''2024-01-01T18:00Z''),
                   (''competitions'', JArr [JObj [(''competitors'', two_teams ''A'' ''B'')]])]])]"

definition nba_env :: env where
  "nba_env =
     \<lparr> net = (\<lambda>url params t.
          if url = ESPN_BASE @ ''/sports/basketball/nba/scoreboard'' then (Inr nba_board, t + 1)
          else (Inl UpstreamError, t + 1)),
       utc_today = (\<lambda>t. 0), ymd = (\<lambda>d. ''20240101''), local_fmt = (\<lambda>s. None) \<rparr>"

definition game :: "string \<Rightarrow> string \<Rightarrow> string \<Rightarrow> string \<Rightarrow> string \<Rightarrow> string \<Rightarrow> string \<Rightarrow> match" where
  "game sp code name i t h a =
     \<lparr> sport = sp, league = code, league_name = name, match_id = i, start_time = JStr t,
       home = JStr h, away = JStr a, home_id = ''1'', away_id = ''2'' \<rparr>"

definition basket_user :: user_data where
  "basket_user = cleared\<lparr>ud_sport := Some ''basketball'', ud_page := Some 0\<rparr>"

definition tennis_user :: user_data where
  "tennis_user =
     cleared\<lparr>ud_sport := Some ''tennis'', ud_page := Some 0,
              ud_matches := Some [game ''tennis'' ''wta'' ''WTA'' ''77'' ''2024-01-01T10:00Z''
                                    ''A'' ''B'']\<rparr>"

definition nhl_user :: user_data where
  "nhl_user =
     cleared\<lparr>ud_sport := Some ''nhl'', ud_page := Some 0,
              ud_matches := Some [game ''nhl'' ''nhl'' ''NHL'' ''55'' ''2024-01-01T10:00Z''
                                    ''A'' ''B'']\<rparr>"

text \<open>A finished game of team 1 (AAA) against team 2 (BBB), won by the given score to nil.\<close>

definition played :: "string \<Rightarrow> string \<Rightarrow> json" where
  "played day goals =
     JObj [(''date'', JStr day),
           (''competitions'',
            JArr [JObj [(''status'', JObj [(''type'', JObj [(''completed'', JBool True)])]),
                        (''competitors'',
                         JArr [JObj [(''score'', JStr goals),
                                     (''team'', JObj [(''id'', JStr ''1''),
                                                      (''abbreviation'', JStr ''AAA'')])],
                               JObj [(''score'', JStr ''0''),
                                     (''team'', JObj [(''id'', JStr ''2''),
                                                      (''abbreviation'', JStr ''BBB'')])]])]])]"

text \<open>Six finished games in the order of the calendar, the oldest first.\<close>

definition season :: json where
  "season =
     JObj [(''events'',
            JArr [played ''2024-01-01'' ''1'', played ''2024-01-02'' ''2'',
                  played ''2024-01-03'' ''3'', played ''2024-01-04'' ''4'',
                  played ''2024-01-05'' ''5'', played ''2024-01-06'' ''6''])]"

text \<open>
  The schedule answers; a date without a time is read as midnight and printed as day,
  month and time, as \<open>fromisoformat\<close> and \<open>strftime("%d/%m %H:%M")\<close> do.
\<close>

definition season_env :: env where
  "season_env =
     \<lparr> net = (\<lambda>url params t.
          if url = ESPN_BASE @ ''/sports/hockey/nhl/teams/1/schedule'' then (Inr season, t + 1)
          else (Inl UpstreamError, t + 1)),
       utc_today = (\<lambda>t. 0), ymd = (\<lambda>d. ''20240101''),
       local_fmt = (\<lambda>s. if length s = 10
                         then Some (take 2 (drop 8 s) @ ''/'' @ take 2 (drop 5 s) @ '' 00:00'')
                         else None) \<rparr>"

definition mlb_user :: user_data where
  "mlb_user =
     cleared\<lparr>ud_sport := Some ''mlb'', ud_page := Some 0,
              ud_matches := Some [game ''mlb'' ''mlb'' ''MLB'' ''55'' ''2024-01-01T10:00Z''
                                    ''A'' ''B'']\<rparr>"

text \<open>A well-formed event, and an event whose only competition is \<open>null\<close>.\<close>

definition good_event :: json where
  "good_event =
     JObj [(''id'', JStr ''8''), (''date'', JStr ''2024-01-01T18:00Z''),
           (''competitions'', JArr [JObj [(''competitors'', two_teams ''A'' ''B'')]])]"

definition null_competition_event :: json where
  "null_competition_event = JObj [(''id'', JStr ''9''), (''competitions'', JArr [JNull])]"

text \<open>Twenty-three games, numbered from 0 in their order.\<close>

definition twenty_three :: "match list" where
  "twenty_three =
     map (\<lambda>i. game ''nhl'' ''nhl'' ''NHL'' (show_nat i) ''2024-01-01T18:00Z'' ''A'' ''B'') [0..<23]"

text \<open>
  A full cache of live entries whose keys are the strings of 0 to 2047 letters, each last
  used at the step that is the length of its key.
\<close>

definition full_cache :: cache where
  "full_cache = map (\<lambda>i. (replicate i (CHR ''a''), JNull, 100)) [0..<2048]"

definition use_by_length :: "string \<Rightarrow> nat option" where
  "use_by_length k = Some (length k)"

definition rest_cache :: cache where
  "rest_cache = map (\<lambda>i. (replicate i (CHR ''a''), JNull, 100)) [Suc 0..<2048]"

section \<open>Properties of the scoreboard normalizer\<close>

lemma dict_get_field: "is_dict d \<Longrightarrow> dict_get d k JNull = Inr (field d k)"
  by (cases d) (auto simp: is_dict_def field_def split: option.splits)

lemma first_tagged_find:
  "list_all is_dict cs \<Longrightarrow>
   first_tagged tag cs = Inr (find (\<lambda>c. field c ''homeAway'' = JStr tag) cs)"
  by (induction cs) (auto simp: bind_def dict_get_field)

lemma pick_side_spec:
  "list_all is_dict cs \<Longrightarrow> i < length cs \<Longrightarrow>
   pick_side tag (JArr cs) i = Inr (tagged_or_positional tag cs i)"
  by (simp add: pick_side_def bind_def first_tagged_find tagged_or_positional_def)

lemma tagged_or_positional_in:
  "i < length cs \<Longrightarrow> tagged_or_positional tag cs i \<in> set cs"
  by (auto simp: tagged_or_positional_def find_Some_iff split: option.splits)

lemma display_name_spec:
  "is_dict t \<Longrightarrow> display_name t ph = Inr (name_or_placeholder t ph)"
  by (simp add: display_name_def bind_def dict_get_field name_or_placeholder_def py_or_def)

lemma team_or_empty:
  "well_formed_competitor c \<Longrightarrow> is_dict (py_or (field c ''team'') (JObj []))"
  by (auto simp: well_formed_competitor_def py_or_def is_dict_def)

lemma parse_events_skip:
  "event_to_match sp ev code nm = Inr None \<Longrightarrow>
   parse_events sp (pre @ ev # post) code nm acc = parse_events sp (pre @ post) code nm acc"
  by (induction pre arbitrary: acc) (auto split: sum.splits option.splits)

lemma no_competitions_skipped:
  "dict_get ev ''competitions'' (JArr []) = Inr c0 \<Longrightarrow> \<not> truthy c0 \<Longrightarrow>
   event_to_match sp ev code nm = Inr None"
  by (simp add: event_to_match_def bind_def py_or_def)

lemma few_competitors_skipped:
  "dict_get ev ''competitions'' (JArr []) = Inr (JArr (cn # rest)) \<Longrightarrow>
   dict_get cn ''competitors'' (JArr []) = Inr c1 \<Longrightarrow>
   py_len (py_or c1 (JArr [])) = Inr n \<Longrightarrow> n < 2 \<Longrightarrow>
   event_to_match sp ev code nm = Inr None"
  by (simp add: event_to_match_def bind_def py_or_def Let_def)

lemma two_competitors_match:
  assumes ev: "dict_get ev ''competitions'' (JArr []) = Inr (JArr (cn # rest))"
    and cmp: "dict_get cn ''competitors'' (JArr []) = Inr (JArr cs)"
    and len: "2 \<le> length cs"
    and wf: "list_all well_formed_competitor cs"
  shows "\<exists>m. event_to_match sp ev code nm = Inr (Some m) \<and>
     home m = name_or_placeholder
                (py_or (field (tagged_or_positional ''home'' cs 0) ''team'') (JObj [])) ''HOME'' \<and>
     away m = name_or_placeholder
                (py_or (field (tagged_or_positional ''away'' cs 1) ''team'') (JObj [])) ''AWAY''"
proof -
  let ?h = "tagged_or_positional ''home'' cs 0"
  let ?a = "tagged_or_positional ''away'' cs 1"
  have dicts: "list_all is_dict cs"
    using wf by (simp add: list_all_iff well_formed_competitor_def)
  have cs: "cs \<noteq> []" using len by auto
  have l0: "0 < length cs" and l1: "1 < length cs" using len by auto
  have ph: "pick_side ''home'' (JArr cs) 0 = Inr ?h"
    by (rule pick_side_spec [OF dicts l0])
  have pa: "pick_side ''away'' (JArr cs) 1 = Inr ?a"
    by (rule pick_side_spec [OF dicts l1])
  have wh: "well_formed_competitor ?h"
    using wf tagged_or_positional_in [OF l0, of "''home''"] by (simp add: list_all_iff)
  have wa: "well_formed_competitor ?a"
    using wf tagged_or_positional_in [OF l1, of "''away''"] by (simp add: list_all_iff)
  have th: "dict_get ?h ''team'' JNull = Inr (field ?h ''team'')"
    using wh by (simp add: dict_get_field well_formed_competitor_def)
  have ta: "dict_get ?a ''team'' JNull = Inr (field ?a ''team'')"
    using wa by (simp add: dict_get_field well_formed_competitor_def)
  obtain ekvs where e: "ev = JObj ekvs" using ev by (cases ev) auto
  obtain ckvs where c: "cn = JObj ckvs" using cmp by (cases cn) auto
  obtain hk where hk: "py_or (field ?h ''team'') (JObj []) = JObj hk"
    using team_or_empty [OF wh] by (auto simp: is_dict_def split: json.splits)
  obtain ak where ak: "py_or (field ?a ''team'') (JObj []) = JObj ak"
    using team_or_empty [OF wa] by (auto simp: is_dict_def split: json.splits)
  have dh: "display_name (JObj hk) ''HOME'' = Inr (name_or_placeholder (JObj hk) ''HOME'')"
    by (simp add: display_name_spec is_dict_def)
  have da: "display_name (JObj ak) ''AWAY'' = Inr (name_or_placeholder (JObj ak) ''AWAY'')"
    by (simp add: display_name_spec is_dict_def)
  show ?thesis
    using ev cmp len ph pa th ta hk ak dh da cs
    by (simp add: event_to_match_def bind_def py_or_def [of "JArr _"] Let_def e c)
qed

lemma parse_events_all:
  "list_all (normalizes sp code nm) evs \<Longrightarrow>
   parse_events sp evs code nm acc = Inr (acc @ matches_of sp evs code nm)"
proof (induction evs arbitrary: acc)
  case Nil
  then show ?case by (simp add: matches_of_def)
next
  case (Cons ev evs)
  from Cons.prems obtain r where r: "event_to_match sp ev code nm = Inr r"
    by (cases "event_to_match sp ev code nm") (simp_all add: normalizes_def)
  have rest: "list_all (normalizes sp code nm) evs" using Cons.prems by simp
  show ?case
  proof (cases r)
    case None
    then show ?thesis using r Cons.IH [OF rest] by (simp add: matches_of_def)
  next
    case (Some m)
    then show ?thesis using r Cons.IH [OF rest, of "acc @ [m]"] by (simp add: matches_of_def)
  qed
qed

lemma parse_events_raise:
  "list_all (normalizes sp code nm) pre \<Longrightarrow> event_to_match sp ev code nm = Inl e \<Longrightarrow>
   parse_events sp (pre @ ev # post) code nm acc = Inl e"
proof (induction pre arbitrary: acc)
  case Nil
  then show ?case by simp
next
  case (Cons p pre)
  from Cons.prems obtain r where r: "event_to_match sp p code nm = Inr r"
    by (cases "event_to_match sp p code nm") (simp_all add: normalizes_def)
  have rest: "list_all (normalizes sp code nm) pre" using Cons.prems by simp
  show ?case
  proof (cases r)
    case None
    then show ?thesis using r Cons.IH [OF rest Cons.prems(2)] by simp
  next
    case (Some m)
    then show ?thesis using r Cons.IH [OF rest Cons.prems(2), of "acc @ [m]"] by simp
  qed
qed

lemma parse_scoreboard_events:
  "dict_get sb ''events'' (JArr []) = Inr (JArr evs) \<Longrightarrow>
   parse_espn_events_to_matches sp sb code nm = parse_events sp evs code nm []"
  by (cases evs) (simp_all add: parse_espn_events_to_matches_def bind_def py_or_def)

text \<open>
  Claim C4 as stated fails. An event whose only competition is \<open>null\<close> has no
  competitor, yet it is not skipped: the normalizer raises on it, and the match of the
  well-formed event before it is lost with the whole batch.
\<close>

theorem event_normalization_counterexample:
  "parse_espn_events_to_matches ''nhl'' (JObj [(''events'', JArr [good_event])]) ''nhl'' ''NHL''
     = Inr [game ''nhl'' ''nhl'' ''NHL'' ''8'' ''2024-01-01T18:00Z'' ''A'' ''B'']
   \<and> parse_espn_events_to_matches ''nhl''
       (JObj [(''events'', JArr [good_event, null_competition_event])]) ''nhl'' ''NHL''
     = Inl AttributeError"
  by code_simp

text \<open>
  Claim C4, amended. An event that is a dict without a competitions entry, or whose first
  competition is a dict with fewer than two competitors, yields no match and the loop
  goes on with the other events as if the event were absent. With two or more
  competitors that are dicts, each with a team that is a dict or absent, a match is
  produced; its home side is the first competitor tagged \<open>home\<close>, else the first
  competitor, its away side the first tagged \<open>away\<close>, else the second; each name is
  the long display name, else the short one, else the placeholder \<open>HOME\<close> or
  \<open>AWAY\<close>. When every event of the scoreboard normalizes, the returned list holds, in
  the order of the payload, the matches of the events that produce one. An event on
  which the normalizer raises ends the batch with that error.
\<close>

theorem event_normalization:
  "(event_to_match sp ev code nm = Inr None \<longrightarrow>
      parse_events sp (pre @ ev # post) code nm acc = parse_events sp (pre @ post) code nm acc)
   \<and> (dict_get ev ''competitions'' (JArr []) = Inr c0 \<and> \<not> truthy c0 \<longrightarrow>
      event_to_match sp ev code nm = Inr None)
   \<and> (dict_get ev ''competitions'' (JArr []) = Inr (JArr (cn # rest)) \<and>
      dict_get cn ''competitors'' (JArr []) = Inr c1 \<and>
      py_len (py_or c1 (JArr [])) = Inr n \<and> n < 2 \<longrightarrow>
      event_to_match sp ev code nm = Inr None)
   \<and> (dict_get ev ''competitions'' (JArr []) = Inr (JArr (cn # rest)) \<and>
      dict_get cn ''competitors'' (JArr []) = Inr (JArr cs) \<and>
      2 \<le> length cs \<and> list_all well_formed_competitor cs \<longrightarrow>
      (\<exists>m. event_to_match sp ev code nm = Inr (Some m) \<and>
         home m = name_or_placeholder
                    (py_or (field (tagged_or_positional ''home'' cs 0) ''team'') (JObj []))
                    ''HOME'' \<and>
         away m = name_or_placeholder
                    (py_or (field (tagged_or_positional ''away'' cs 1) ''team'') (JObj []))
                    ''AWAY''))
   \<and> (dict_get sb ''events'' (JArr []) = Inr (JArr evs) \<and>
      list_all (normalizes sp code nm) evs \<longrightarrow>
      parse_espn_events_to_matches sp sb code nm = Inr (matches_of sp evs code nm))
   \<and> (dict_get sb ''events'' (JArr []) = Inr (JArr (pre @ ev # post)) \<and>
      list_all (normalizes sp code nm) pre \<and> event_to_match sp ev code nm = Inl e \<longrightarrow>
      parse_espn_events_to_matches sp sb code nm = Inl e)"
proof (intro conjI impI)
  assume "event_to_match sp ev code nm = Inr None"
  then show "parse_events sp (pre @ ev # post) code nm acc
           = parse_events sp (pre @ post) code nm acc"
    by (rule parse_events_skip)
next
  assume "dict_get ev ''competitions'' (JArr []) = Inr c0 \<and> \<not> truthy c0"
  then show "event_to_match sp ev code nm = Inr None"
    using no_competitions_skipped by blast
next
  assume "dict_get ev ''competitions'' (JArr []) = Inr (JArr (cn # rest)) \<and>
      dict_get cn ''competitors'' (JArr []) = Inr c1 \<and>
      py_len (py_or c1 (JArr [])) = Inr n \<and> n < 2"
  then show "event_to_match sp ev code nm = Inr None"
    using few_competitors_skipped by blast
next
  assume "dict_get ev ''competitions'' (JArr []) = Inr (JArr (cn # rest)) \<and>
      dict_get cn ''competitors'' (JArr []) = Inr (JArr cs) \<and>
      2 \<le> length cs \<and> list_all well_formed_competitor cs"
  then show "\<exists>m. event_to_match sp ev code nm = Inr (Some m) \<and>
         home m = name_or_placeholder
                    (py_or (field (tagged_or_positional ''home'' cs 0) ''team'') (JObj []))
                    ''HOME'' \<and>
         away m = name_or_placeholder
                    (py_or (field (tagged_or_positional ''away'' cs 1) ''team'') (JObj []))
                    ''AWAY''"
    using two_competitors_match by blast
next
  assume a: "dict_get sb ''events'' (JArr []) = Inr (JArr evs) \<and>
      list_all (normalizes sp code nm) evs"
  then have "parse_espn_events_to_matches sp sb code nm = parse_events sp evs code nm []"
    using parse_scoreboard_events by blast
  then show "parse_espn_events_to_matches sp sb code nm = Inr (matches_of sp evs code nm)"
    using a parse_events_all [of sp code nm evs "[]"] by simp
next
  assume a: "dict_get sb ''events'' (JArr []) = Inr (JArr (pre @ ev # post)) \<and>
      list_all (normalizes sp code nm) pre \<and> event_to_match sp ev code nm = Inl e"
  then have "parse_espn_events_to_matches sp sb code nm
             = parse_events sp (pre @ ev # post) code nm []"
    using parse_scoreboard_events by blast
  then show "parse_espn_events_to_matches sp sb code nm = Inl e"
    using a parse_events_raise [of sp code nm pre ev e post "[]"] by simp
qed

theorem event_normalization_witness:
  "parse_events ''nhl''
     ([] @ JObj [(''competitions'', JArr [JObj [(''competitors'', JArr [JObj []])]])] # [])
     ''nhl'' ''NHL'' []
   = parse_events ''nhl'' ([] @ []) ''nhl'' ''NHL'' []
   \<and> event_to_match ''nhl'' (JObj [(''id'', JStr ''7'')]) ''nhl'' ''NHL'' = Inr None
   \<and> (\<exists>m. event_to_match ''nhl''
            (JObj [(''competitions'',
               JArr [JObj [(''competitors'',
                 JArr [JObj [(''team'', JObj [(''shortDisplayName'', JStr ''Bruins'')])],
                       JObj [(''homeAway'', JStr ''away'')]])]])])
            ''nhl'' ''NHL'' = Inr (Some m)
          \<and> home m = JStr ''Bruins'' \<and> away m = JStr ''AWAY'')
   \<and> parse_espn_events_to_matches ''nhl''
       (JObj [(''events'', JArr [JObj [(''id'', JStr ''7'')], good_event])]) ''nhl'' ''NHL''
     = Inr [game ''nhl'' ''nhl'' ''NHL'' ''8'' ''2024-01-01T18:00Z'' ''A'' ''B'']
   \<and> parse_espn_events_to_matches ''nhl''
       (JObj [(''events'', JArr ([good_event] @ null_competition_event # [good_event]))])
       ''nhl'' ''NHL''
     = Inl AttributeError"
proof -
  let ?one = "JObj [(''competitions'', JArr [JObj [(''competitors'', JArr [JObj []])]])]"
  let ?cn = "JObj [(''competitors'', JArr [JObj []])]"
  let ?cs = "[JObj [(''team'', JObj [(''shortDisplayName'', JStr ''Bruins'')])],
              JObj [(''homeAway'', JStr ''away'')]]"
  let ?cn2 = "JObj [(''competitors'', JArr ?cs)]"
  let ?two = "JObj [(''competitions'', JArr [?cn2])]"
  let ?g = "game ''nhl'' ''nhl'' ''NHL'' ''8'' ''2024-01-01T18:00Z'' ''A'' ''B''"
  note t1 = event_normalization [where sp = "''nhl''" and ev = ?one and code = "''nhl''"
      and nm = "''NHL''" and pre = "[]" and post = "[]" and acc = "[]" and cn = ?cn
      and rest = "[]" and ?c1.0 = "JArr [JObj []]" and n = 1]
  have one: "event_to_match ''nhl'' ?one ''nhl'' ''NHL'' = Inr None"
    using t1 [THEN conjunct2, THEN conjunct2, THEN conjunct1] by (simp add: py_or_def)
  have a: "parse_events ''nhl'' ([] @ ?one # []) ''nhl'' ''NHL'' []
         = parse_events ''nhl'' ([] @ []) ''nhl'' ''NHL'' []"
    using one t1 [THEN conjunct1] by blast
  note t2 = event_normalization [where sp = "''nhl''" and ev = "JObj [(''id'', JStr ''7'')]"
      and code = "''nhl''" and nm = "''NHL''" and ?c0.0 = "JArr []"]
  have b: "event_to_match ''nhl'' (JObj [(''id'', JStr ''7'')]) ''nhl'' ''NHL'' = Inr None"
    using t2 [THEN conjunct2, THEN conjunct1] by simp
  note t3 = event_normalization [where sp = "''nhl''" and ev = ?two and code = "''nhl''"
      and nm = "''NHL''" and cn = ?cn2 and rest = "[]" and cs = ?cs]
  have c: "\<exists>m. event_to_match ''nhl'' ?two ''nhl'' ''NHL'' = Inr (Some m) \<and>
         home m = name_or_placeholder
                    (py_or (field (tagged_or_positional ''home'' ?cs 0) ''team'') (JObj []))
                    ''HOME'' \<and>
         away m = name_or_placeholder
                    (py_or (field (tagged_or_positional ''away'' ?cs 1) ''team'') (JObj []))
                    ''AWAY''"
    using t3 [THEN conjunct2, THEN conjunct2, THEN conjunct2, THEN conjunct1]
    by (simp add: well_formed_competitor_def is_dict_def field_def)
  have hn: "name_or_placeholder
              (py_or (field (tagged_or_positional ''home'' ?cs 0) ''team'') (JObj [])) ''HOME''
            = JStr ''Bruins''"
    by (simp add: name_or_placeholder_def py_or_def field_def tagged_or_positional_def)
  have an: "name_or_placeholder
              (py_or (field (tagged_or_positional ''away'' ?cs 1) ''team'') (JObj [])) ''AWAY''
            = JStr ''AWAY''"
    by (simp add: name_or_placeholder_def py_or_def field_def tagged_or_positional_def)
  have good: "event_to_match ''nhl'' good_event ''nhl'' ''NHL'' = Inr (Some ?g)"
    by code_simp
  have bad: "event_to_match ''nhl'' null_competition_event ''nhl'' ''NHL'' = Inl AttributeError"
    by code_simp
  note t4 = event_normalization [where sp = "''nhl''" and code = "''nhl''" and nm = "''NHL''"
      and sb = "JObj [(''events'', JArr [JObj [(''id'', JStr ''7'')], good_event])]"
      and evs = "[JObj [(''id'', JStr ''7'')], good_event]"]
  have h4: "dict_get (JObj [(''events'', JArr [JObj [(''id'', JStr ''7'')], good_event])])
              ''events'' (JArr []) = Inr (JArr [JObj [(''id'', JStr ''7'')], good_event])
            \<and> list_all (normalizes ''nhl'' ''nhl'' ''NHL'') [JObj [(''id'', JStr ''7'')], good_event]"
    using b good by (simp add: normalizes_def)
  have m4: "matches_of ''nhl'' [JObj [(''id'', JStr ''7'')], good_event] ''nhl'' ''NHL'' = [?g]"
    using b good by (simp add: matches_of_def)
  have d: "parse_espn_events_to_matches ''nhl''
       (JObj [(''events'', JArr [JObj [(''id'', JStr ''7'')], good_event])]) ''nhl'' ''NHL''
     = Inr [?g]"
    using t4 [THEN conjunct2, THEN conjunct2, THEN conjunct2, THEN conjunct2, THEN conjunct1]
      h4 m4 by simp
  note t5 = event_normalization [where sp = "''nhl''" and code = "''nhl''" and nm = "''NHL''"
      and sb = "JObj [(''events'', JArr ([good_event] @ null_competition_event # [good_event]))]"
      and pre = "[good_event]" and ev = null_competition_event and post = "[good_event]"
      and e = AttributeError]
  have h5: "dict_get (JObj [(''events'', JArr ([good_event] @ null_competition_event # [good_event]))])
              ''events'' (JArr [])
            = Inr (JArr ([good_event] @ null_competition_event # [good_event]))
            \<and> list_all (normalizes ''nhl'' ''nhl'' ''NHL'') [good_event]
            \<and> event_to_match ''nhl'' null_competition_event ''nhl'' ''NHL'' = Inl AttributeError"
    using good bad by (simp add: normalizes_def)
  have e: "parse_espn_events_to_matches ''nhl''
       (JObj [(''events'', JArr ([good_event] @ null_competition_event # [good_event]))])
       ''nhl'' ''NHL''
     = Inl AttributeError"
    using t5 [THEN conjunct2, THEN conjunct2, THEN conjunct2, THEN conjunct2, THEN conjunct2]
      h5 by blast
  show ?thesis using a b c d e unfolding hn an by blast
qed

section \<open>Properties of the sport pipelines\<close>

lemma leagues_loop_union:
  "leagues_loop E sp dt ls out w =
     (case union_of_succeeded E sp dt ls w of (ms, w') \<Rightarrow> (Inr (out @ ms), w'))"
proof (induction ls arbitrary: out w)
  case Nil
  then show ?case by simp
next
  case (Cons lg ls)
  obtain code name where lg: "lg = (code, name)" by (cases lg)
  show ?case
    by (simp add: lg league_matches_def Cons.IH split: prod.splits sum.splits)
qed

text \<open>
  Claim C1, at a failing input. The claim asks that a failed fetch of a single-league
  sport gives the empty list. With every request failing, the basketball pipeline does
  return the empty list, but the NHL, NFL and MLB pipelines hand the failure to their
  caller, and the date action of the controller raises it in turn.
\<close>

theorem single_league_failure_reaches_caller:
  "fst (fetch_basket_matches down_env 0 ''nba'' ''NBA'' fresh_world) = Inr []
   \<and> fst (fetch_nhl_matches_espn down_env 0 fresh_world) = Inl UpstreamError
   \<and> fst (fetch_nfl_matches down_env 0 fresh_world) = Inl UpstreamError
   \<and> fst (fetch_mlb_matches_espn down_env 0 fresh_world) = Inl UpstreamError
   \<and> raised (on_button down_env ''date|today'' nhl_user fresh_world) = Some UpstreamError"
proof -
  have p: "fst (fetch_basket_matches down_env 0 ''nba'' ''NBA'' fresh_world) = Inr []
   \<and> fst (fetch_nhl_matches_espn down_env 0 fresh_world) = Inl UpstreamError
   \<and> fst (fetch_nfl_matches down_env 0 fresh_world) = Inl UpstreamError
   \<and> fst (fetch_mlb_matches_espn down_env 0 fresh_world) = Inl UpstreamError"
    by (simp add: fetch_basket_matches_def fetch_nhl_matches_espn_def fetch_nfl_matches_def
        fetch_mlb_matches_espn_def espn_scoreboard_def http_get_json_def down_env_def
        fresh_world_def cache_contains_def bind_def Let_def)
  have h: "raised (on_button down_env ''date|today'' nhl_user fresh_world) = Some UpstreamError"
    by code_simp
  show ?thesis using p h by blast
qed

text \<open>
  Claim C2. The soccer pipeline over its nine leagues and the tennis pipeline over ATP and
  WTA never fail: each returns the concatenation, in league order, of the matches of the
  leagues whose fetch and normalization succeeded, a failing league contributing nothing.
\<close>

theorem multi_league_union:
  "fetch_soccer_matches E dt w =
     (case union_of_succeeded E ''soccer'' dt SOCCER_LEAGUES w of (ms, w') \<Rightarrow> (Inr ms, w'))
   \<and> fetch_tennis_matches E dt w =
     (case union_of_succeeded E ''tennis'' dt TENNIS_LEAGUES w of (ms, w') \<Rightarrow> (Inr ms, w'))
   \<and> length SOCCER_LEAGUES = 9
   \<and> map fst TENNIS_LEAGUES = [''atp'', ''wta'']"
  by (simp add: fetch_soccer_matches_def fetch_tennis_matches_def leagues_loop_union
      SOCCER_LEAGUES_def TENNIS_LEAGUES_def)

theorem multi_league_union_witness:
  "fst (league_matches wta_only_env ''tennis'' 0 (''atp'', ''ATP'') fresh_world)
     = Inl UpstreamError
   \<and> fst (fetch_tennis_matches wta_only_env 0 fresh_world)
     = Inr [\<lparr> sport = ''tennis'', league = ''wta'', league_name = ''WTA'', match_id = ''77'',
               start_time = JStr ''2024-01-01T10:00Z'', home = JStr ''A'', away = JStr ''B'',
               home_id = ''1'', away_id = ''2'' \<rparr>]"
proof -
  have atp: "league_matches wta_only_env ''tennis'' 0 (''atp'', ''ATP'') fresh_world
           = (Inl UpstreamError,
              \<lparr> now = 1, CACHE = [],
                trace = [ESPN_BASE @ ''/sports/tennis/atp/scoreboard|''
                         @ py_str (JObj [(''dates'', JStr ''20240101''), (''limit'', JNum 300)])] \<rparr>)"
    by (simp add: league_matches_def espn_scoreboard_def http_get_json_def wta_only_env_def
        fresh_world_def cache_contains_def bind_def Let_def ESPN_BASE_def yyyymmdd_def)
  have wta: "fst (league_matches wta_only_env ''tennis'' 0 (''wta'', ''WTA'')
              \<lparr> now = 1, CACHE = [],
                trace = [ESPN_BASE @ ''/sports/tennis/atp/scoreboard|''
                         @ py_str (JObj [(''dates'', JStr ''20240101''), (''limit'', JNum 300)])] \<rparr>)
           = Inr [\<lparr> sport = ''tennis'', league = ''wta'', league_name = ''WTA'', match_id = ''77'',
               start_time = JStr ''2024-01-01T10:00Z'', home = JStr ''A'', away = JStr ''B'',
               home_id = ''1'', away_id = ''2'' \<rparr>]"
    by (simp add: league_matches_def espn_scoreboard_def http_get_json_def wta_only_env_def
        cache_contains_def bind_def Let_def ESPN_BASE_def yyyymmdd_def wta_board_def
        parse_espn_events_to_matches_def py_or_def event_to_match_def pick_side_def
        display_name_def split: prod.splits)
  show ?thesis
    using multi_league_union [of wta_only_env 0 fresh_world] atp wta
    by (simp add: TENNIS_LEAGUES_def split: prod.splits)
qed

section \<open>Properties of the conversation controller\<close>

lemma py_lt_str: "is_str a \<Longrightarrow> is_str b \<Longrightarrow> py_lt a b = Inr (str_of a < str_of b)"
  by (cases a; cases b) auto

lemma insert_by_key_set:
  "insert_by_key f x ys = Inr r \<Longrightarrow> set r = insert x (set ys)"
proof (induction ys arbitrary: r)
  case Nil
  then show ?case by auto
next
  case (Cons y ys)
  from Cons.prems obtain b where b: "py_lt (f x) (f y) = Inr b"
    by (cases "py_lt (f x) (f y)") (simp_all add: bind_def)
  show ?case
  proof (cases b)
    case True
    then have "r = x # y # ys" using Cons.prems b by (simp add: bind_def)
    then show ?thesis by auto
  next
    case False
    then obtain r' where r': "insert_by_key f x ys = Inr r'" and r: "r = y # r'"
      using Cons.prems b by (cases "insert_by_key f x ys") (simp_all add: bind_def)
    show ?thesis using Cons.IH [OF r'] r by auto
  qed
qed

lemma sort_loop_set:
  "sort_loop f xs placed = Inr r \<Longrightarrow> set r = set xs \<union> set placed"
proof (induction xs arbitrary: placed r)
  case Nil
  then show ?case by simp
next
  case (Cons x xs)
  then obtain p where p: "insert_by_key f x placed = Inr p" and r: "sort_loop f xs p = Inr r"
    by (cases "insert_by_key f x placed") (simp_all add: bind_def)
  show ?case using Cons.IH [OF r] insert_by_key_set [OF p] by auto
qed

lemma insert_by_key_sorted:
  "insert_by_key f x ys = Inr r \<Longrightarrow> is_str (f x) \<Longrightarrow> list_all (\<lambda>y. is_str (f y)) ys \<Longrightarrow>
   sorted (map (\<lambda>m. str_of (f m)) ys) \<Longrightarrow> sorted (map (\<lambda>m. str_of (f m)) r)"
proof (induction ys arbitrary: r)
  case Nil
  then show ?case by auto
next
  case (Cons y ys)
  have lt: "py_lt (f x) (f y) = Inr (str_of (f x) < str_of (f y))"
    using Cons.prems by (simp add: py_lt_str)
  show ?case
  proof (cases "str_of (f x) < str_of (f y)")
    case True
    then have "r = x # y # ys" using Cons.prems(1) lt by (simp add: bind_def)
    then show ?thesis using True Cons.prems(4) by auto
  next
    case False
    then obtain r' where r': "insert_by_key f x ys = Inr r'" and r: "r = y # r'"
      using Cons.prems(1) lt by (cases "insert_by_key f x ys") (simp_all add: bind_def)
    have s: "sorted (map (\<lambda>m. str_of (f m)) r')"
      using Cons.IH [OF r'] Cons.prems by simp
    have "set r' = insert x (set ys)" using insert_by_key_set [OF r'] .
    then show ?thesis using r s False Cons.prems(4) by auto
  qed
qed

lemma sort_loop_sorted:
  "sort_loop f xs placed = Inr r \<Longrightarrow> list_all (\<lambda>y. is_str (f y)) (xs @ placed) \<Longrightarrow>
   sorted (map (\<lambda>m. str_of (f m)) placed) \<Longrightarrow> sorted (map (\<lambda>m. str_of (f m)) r)"
proof (induction xs arbitrary: placed r)
  case Nil
  then show ?case by simp
next
  case (Cons x xs)
  then obtain p where p: "insert_by_key f x placed = Inr p" and r: "sort_loop f xs p = Inr r"
    by (cases "insert_by_key f x placed") (simp_all add: bind_def)
  have sp: "sorted (map (\<lambda>m. str_of (f m)) p)"
    using insert_by_key_sorted [OF p] Cons.prems by simp
  have "set p = insert x (set placed)" using insert_by_key_set [OF p] .
  then have "list_all (\<lambda>y. is_str (f y)) (xs @ p)"
    using Cons.prems(2) by (auto simp: list_all_iff)
  then show ?case using Cons.IH [OF r _ sp] by simp
qed

lemma py_sort_sorted:
  assumes "py_sort f xs = Inr r" and "list_all (\<lambda>y. is_str (f y)) r"
  shows "sorted (map (\<lambda>m. str_of (f m)) r)"
proof -
  have "set r = set xs" using assms(1) sort_loop_set [of f xs "[]" r] by (simp add: py_sort_def)
  then have "list_all (\<lambda>y. is_str (f y)) (xs @ [])" using assms(2) by (simp add: list_all_iff)
  then show ?thesis using sort_loop_sorted [of f xs "[]" r] assms(1) by (simp add: py_sort_def)
qed


lemma on_button_date:
  "hd (split_bar data) = ''date'' \<Longrightarrow> on_button E data ud w = on_date E (split_bar data) ud w"
  by (simp add: on_button_def Let_def)

lemma on_date_stores_sorted:
  assumes ok: "raised (on_date E parts ud w) = None"
    and sp: "ud_sport ud = Some sp" "sp \<noteq> []"
  shows "\<exists>ms. ud_matches (user (on_date E parts ud w)) = Some ms
           \<and> (list_all (\<lambda>m. is_str (start_time m)) ms
                \<longrightarrow> sorted (map (\<lambda>m. str_of (start_time m)) ms))
           \<and> (ms \<noteq> [] \<longrightarrow> snd (last (screens (on_date E parts ud w)))
                                 = Some (kb_matches E ms 0 10))"
proof -
  obtain choice where c: "part parts 1 = Inr choice"
    using ok sp by (cases "part parts 1") (simp_all add: on_date_def abort_def)
  let ?dt = "utc_today E (now w) + (if choice = ''tomorrow'' then 1 else 0)"
  let ?ud1 = "ud\<lparr>ud_date_choice := Some choice, ud_page := Some 0\<rparr>"
  obtain r w1 where f: "fetch_for_sport E sp ?ud1 ?dt w = (r, w1)"
    by (cases "fetch_for_sport E sp ?ud1 ?dt w")
  obtain fetched where r: "r = Inr fetched"
    using ok sp c f by (cases r) (simp_all add: on_date_def abort_def Let_def)
  obtain ms where s: "py_sort start_time fetched = Inr ms"
    using ok sp c f r
    by (cases "py_sort start_time fetched") (simp_all add: on_date_def abort_def Let_def)
  have u: "ud_matches (user (on_date E parts ud w)) = Some ms"
    using sp c f r s by (simp add: on_date_def finish_def Let_def)
  have k: "ms \<noteq> [] \<longrightarrow> snd (last (screens (on_date E parts ud w)))
                          = Some (kb_matches E ms 0 10)"
    using sp c f r s by (simp add: on_date_def finish_def Let_def)
  have "list_all (\<lambda>m. is_str (start_time m)) ms
          \<longrightarrow> sorted (map (\<lambda>m. str_of (start_time m)) ms)"
    using py_sort_sorted [OF s] by blast
  with u k show ?thesis by blast
qed

text \<open>
  Claim C3. When a date action runs to its end for a chosen sport, the list it stores in
  the user data is sorted by start time, the start times being strings compared
  character by character, and a non-empty list is the one the match menu is built from.
\<close>

theorem stored_matches_sorted:
  assumes "hd (split_bar data) = ''date''"
    and "raised (on_button E data ud w) = None"
    and "ud_sport ud = Some sp" and "sp \<noteq> []"
  shows "\<exists>ms. ud_matches (user (on_button E data ud w)) = Some ms
           \<and> (list_all (\<lambda>m. is_str (start_time m)) ms
                \<longrightarrow> sorted (map (\<lambda>m. str_of (start_time m)) ms))
           \<and> (ms \<noteq> [] \<longrightarrow> snd (last (screens (on_button E data ud w)))
                                 = Some (kb_matches E ms 0 10))"
  using assms on_date_stores_sorted [of E "split_bar data" ud w sp]
  by (simp add: on_button_date)

lemma nba_today:
  "on_button nba_env ''date|today'' basket_user fresh_world
   = on_date nba_env [''date'', ''today''] basket_user fresh_world"
  by (simp add: on_button_def Let_def)

lemma nba_fetched:
  "fst (fetch_for_sport nba_env ''basketball''
          (basket_user\<lparr>ud_date_choice := Some ''today'', ud_page := Some 0\<rparr>) 0 fresh_world)
   = Inr [game ''basketball'' ''nba'' ''NBA'' ''9'' ''2024-01-01T23:00Z'' ''C'' ''D'',
          game ''basketball'' ''nba'' ''NBA'' ''8'' ''2024-01-01T18:00Z'' ''A'' ''B'']"
  by (simp add: fetch_for_sport_def basket_user_def cleared_def fetch_basket_matches_def
      espn_scoreboard_def http_get_json_def nba_env_def fresh_world_def cache_contains_def
      bind_def Let_def ESPN_BASE_def yyyymmdd_def nba_board_def two_teams_def game_def
      parse_espn_events_to_matches_def py_or_def event_to_match_def pick_side_def
      display_name_def split: prod.splits)

lemma nba_sorted:
  "py_sort start_time
     [game ''basketball'' ''nba'' ''NBA'' ''9'' ''2024-01-01T23:00Z'' ''C'' ''D'',
      game ''basketball'' ''nba'' ''NBA'' ''8'' ''2024-01-01T18:00Z'' ''A'' ''B'']
   = Inr [game ''basketball'' ''nba'' ''NBA'' ''8'' ''2024-01-01T18:00Z'' ''A'' ''B'',
          game ''basketball'' ''nba'' ''NBA'' ''9'' ''2024-01-01T23:00Z'' ''C'' ''D'']"
  by (simp add: py_sort_def game_def bind_def)

lemma nba_user:
  "raised (on_date nba_env [''date'', ''today''] basket_user fresh_world) = None
   \<and> ud_matches (user (on_date nba_env [''date'', ''today''] basket_user fresh_world))
     = Some [game ''basketball'' ''nba'' ''NBA'' ''8'' ''2024-01-01T18:00Z'' ''A'' ''B'',
             game ''basketball'' ''nba'' ''NBA'' ''9'' ''2024-01-01T23:00Z'' ''C'' ''D'']"
proof -
  have sp: "ud_sport basket_user = Some ''basketball''"
    by (simp add: basket_user_def cleared_def)
  have t: "utc_today nba_env (now fresh_world) = 0" by (simp add: nba_env_def)
  obtain w1 where f: "fetch_for_sport nba_env ''basketball''
          (basket_user\<lparr>ud_date_choice := Some ''today'', ud_page := Some 0\<rparr>) 0 fresh_world
        = (Inr [game ''basketball'' ''nba'' ''NBA'' ''9'' ''2024-01-01T23:00Z'' ''C'' ''D'',
                game ''basketball'' ''nba'' ''NBA'' ''8'' ''2024-01-01T18:00Z'' ''A'' ''B''], w1)"
    using nba_fetched by (metis prod.collapse)
  show ?thesis
    by (simp add: on_date_def sp part_def t f nba_sorted finish_def Let_def)
qed

theorem stored_matches_sorted_witness:
  "ud_matches (user (on_button nba_env ''date|today'' basket_user fresh_world))
     = Some [game ''basketball'' ''nba'' ''NBA'' ''8'' ''2024-01-01T18:00Z'' ''A'' ''B'',
             game ''basketball'' ''nba'' ''NBA'' ''9'' ''2024-01-01T23:00Z'' ''C'' ''D'']
   \<and> sorted [''2024-01-01T18:00Z'', ''2024-01-01T23:00Z'']"
proof -
  have a: "hd (split_bar ''date|today'') = ''date''" by simp
  have b: "raised (on_button nba_env ''date|today'' basket_user fresh_world) = None"
    using nba_user by (simp add: nba_today)
  have c: "ud_sport basket_user = Some ''basketball''"
    by (simp add: basket_user_def cleared_def)
  have d: "''basketball'' \<noteq> []" by simp
  have u: "ud_matches (user (on_button nba_env ''date|today'' basket_user fresh_world))
     = Some [game ''basketball'' ''nba'' ''NBA'' ''8'' ''2024-01-01T18:00Z'' ''A'' ''B'',
             game ''basketball'' ''nba'' ''NBA'' ''9'' ''2024-01-01T23:00Z'' ''C'' ''D'']"
    using nba_user by (simp add: nba_today)
  from stored_matches_sorted [OF a b c d] u
  have "sorted (map (\<lambda>m. str_of (start_time m))
          [game ''basketball'' ''nba'' ''NBA'' ''8'' ''2024-01-01T18:00Z'' ''A'' ''B'',
           game ''basketball'' ''nba'' ''NBA'' ''9'' ''2024-01-01T23:00Z'' ''C'' ''D''])"
    by (simp add: game_def)
  then have "sorted [''2024-01-01T18:00Z'', ''2024-01-01T23:00Z'']"
    by (simp add: game_def)
  with u show ?thesis by blast
qed

section \<open>The match menu\<close>

lemma py_slice_window:
  "0 \<le> page \<Longrightarrow> py_slice xs (page * 10) (page * 10 + 10) = take 10 (drop (10 * nat page) xs)"
proof -
  assume p: "0 \<le> page"
  have a: "nat (page * 10) = 10 * nat page" using p by (simp add: nat_mult_distrib)
  have b: "nat (page * 10 + 10) = 10 * nat page + 10" using p by (simp add: nat_add_distrib nat_mult_distrib)
  show ?thesis
  proof (cases "10 * nat page \<le> length xs")
    case True
    then show ?thesis using p a b
      by (auto simp: py_slice_def slice_bound_def min_def)
  next
    case False
    then show ?thesis using p a b
      by (auto simp: py_slice_def slice_bound_def min_def)
  qed
qed

lemma match_rows_callbacks:
  "b \<in> set (concat (match_rows E m)) \<Longrightarrow> hd (snd b) \<noteq> CHR ''p''"
  by (auto simp: match_rows_def Let_def)

lemma window_callbacks:
  "b \<in> set (concat (concat (map (match_rows E) ms))) \<Longrightarrow> hd (snd b) \<noteq> CHR ''p''"
  using match_rows_callbacks by fastforce

lemma PREVIOUS_NEXT: "PREVIOUS \<noteq> NEXT"
  by (simp add: PREVIOUS_def NEXT_def)

lemma kb_matches_eq:
  assumes "0 \<le> page"
  shows "kb_matches E ms page 10 =
           concat (map (match_rows E) (take 10 (drop (10 * nat page) ms)))
           @ (if page > 0 \<or> (page + 1) * 10 < int (length ms) then
                [(if page > 0 then [(PREVIOUS, ''page|'' @ show_int (page - 1))] else [])
                 @ (if (page + 1) * 10 < int (length ms)
                    then [(NEXT, ''page|'' @ show_int (page + 1))] else [])]
              else [])
           @ [BACK_DATES_ROW, MENU_SPORTS_ROW, CLOSE_ROW]"
  using assms by (simp add: kb_matches_def Let_def py_slice_window distrib_right)

lemma prev_iff:
  assumes "0 \<le> page"
  shows "(PREVIOUS, ''page|'' @ show_int (page - 1)) \<in> set (concat (kb_matches E ms page 10))
         \<longleftrightarrow> page > 0"
proof -
  have w: "(PREVIOUS, ''page|'' @ show_int (page - 1))
             \<notin> set (concat (concat (map (match_rows E) (take 10 (drop (10 * nat page) ms)))))"
    using window_callbacks [of "(PREVIOUS, ''page|'' @ show_int (page - 1))"] by auto
  show ?thesis
    using w PREVIOUS_NEXT
    by (auto simp: kb_matches_eq [OF assms] BACK_DATES_ROW_def MENU_SPORTS_ROW_def CLOSE_ROW_def)
qed

lemma next_iff:
  assumes "0 \<le> page"
  shows "(NEXT, ''page|'' @ show_int (page + 1)) \<in> set (concat (kb_matches E ms page 10))
         \<longleftrightarrow> (page + 1) * 10 < int (length ms)"
proof -
  have w: "(NEXT, ''page|'' @ show_int (page + 1))
             \<notin> set (concat (concat (map (match_rows E) (take 10 (drop (10 * nat page) ms)))))"
    using window_callbacks [of "(NEXT, ''page|'' @ show_int (page + 1))"] by auto
  show ?thesis
    using w PREVIOUS_NEXT
    by (auto simp: kb_matches_eq [OF assms] BACK_DATES_ROW_def MENU_SPORTS_ROW_def CLOSE_ROW_def)
qed


lemma match_rows_explicit:
  "match_rows E m =
     [[(py_str (fmt_dt E (start_time m)) @ DASH @ py_str (away m) @ '' @ '' @ py_str (home m),
        ''match|'' @ match_id m)],
      [(TROPHY @ (if league_name m \<noteq> [] then league_name m else league m), ''noop|x'')]]"
  by (simp add: match_rows_def Let_def)

lemma window_actions:
  "map snd (concat (concat (map (match_rows E) xs)))
   = concat (map (\<lambda>m. [''match|'' @ match_id m, ''noop|x'']) xs)"
  by (induction xs) (simp_all add: match_rows_def Let_def)

lemma kb_matches_actions:
  assumes "0 \<le> page"
  shows "map snd (concat (kb_matches E ms page 10)) =
           concat (map (\<lambda>m. [''match|'' @ match_id m, ''noop|x''])
                       (take 10 (drop (10 * nat page) ms)))
           @ (if page > 0 then [''page|'' @ show_int (page - 1)] else [])
           @ (if (page + 1) * 10 < int (length ms) then [''page|'' @ show_int (page + 1)] else [])
           @ [''back|dates'', ''back|sports'', ''close|x'']"
  by (simp add: kb_matches_eq [OF assms] window_actions BACK_DATES_ROW_def MENU_SPORTS_ROW_def
      CLOSE_ROW_def)

lemma on_button_page:
  "hd (split_bar data) = ''page'' \<Longrightarrow> on_button E data ud w = on_page E (split_bar data) ud w"
  by (simp add: on_button_def Let_def)

lemma on_page_renders:
  "bind (part parts 1) int_of_str = Inr page \<Longrightarrow>
   raised (on_page E parts ud w) = None
   \<and> screens (on_page E parts ud w)
     = [(list_title (ud_sport ud) (ud_date_choice ud), Some (kb_matches E (stored ud) page 10))]"
  by (simp add: on_page_def Let_def finish_def)

text \<open>
  Claim C9. For a page index that is not negative, the match menu shows the two rows of
  each of the ten matches from position ten times the page on, then the navigation row,
  then the three fixed rows; the previous button is there exactly when the page is
  positive, the next button exactly when ten times the page plus one is below the
  number of matches; a page past the end shows no match and still the navigation, and
  the page action renders it without raising. The rows of a match are a button that
  opens it, labelled with its time and its two names, and a row naming its competition;
  so the actions of the menu are, in order, those of the matches of the window, the
  navigation and the three fixed ones.
\<close>

theorem kb_matches_pagination:
  "0 \<le> page \<Longrightarrow>
   kb_matches E ms page 10 =
     concat (map (match_rows E) (take 10 (drop (10 * nat page) ms)))
     @ (if page > 0 \<or> (page + 1) * 10 < int (length ms) then
          [(if page > 0 then [(PREVIOUS, ''page|'' @ show_int (page - 1))] else [])
           @ (if (page + 1) * 10 < int (length ms)
              then [(NEXT, ''page|'' @ show_int (page + 1))] else [])]
        else [])
     @ [BACK_DATES_ROW, MENU_SPORTS_ROW, CLOSE_ROW]
   \<and> ((PREVIOUS, ''page|'' @ show_int (page - 1)) \<in> set (concat (kb_matches E ms page 10))
        \<longleftrightarrow> page > 0)
   \<and> ((NEXT, ''page|'' @ show_int (page + 1)) \<in> set (concat (kb_matches E ms page 10))
        \<longleftrightarrow> (page + 1) * 10 < int (length ms))
   \<and> (int (length ms) \<le> page * 10 \<longrightarrow>
        kb_matches E ms page 10 =
          (if page > 0 then [[(PREVIOUS, ''page|'' @ show_int (page - 1))]] else [])
          @ [BACK_DATES_ROW, MENU_SPORTS_ROW, CLOSE_ROW])
   \<and> (hd (split_bar data) = ''page'' \<and> bind (part (split_bar data) 1) int_of_str = Inr page
        \<longrightarrow>
        raised (on_button E data ud w) = None
        \<and> screens (on_button E data ud w)
          = [(list_title (ud_sport ud) (ud_date_choice ud),
              Some (kb_matches E (stored ud) page 10))])
   \<and> match_rows E m =
       [[(py_str (fmt_dt E (start_time m)) @ DASH @ py_str (away m) @ '' @ '' @ py_str (home m),
          ''match|'' @ match_id m)],
        [(TROPHY @ (if league_name m \<noteq> [] then league_name m else league m), ''noop|x'')]]
   \<and> map snd (concat (kb_matches E ms page 10)) =
       concat (map (\<lambda>m. [''match|'' @ match_id m, ''noop|x''])
                   (take 10 (drop (10 * nat page) ms)))
       @ (if page > 0 then [''page|'' @ show_int (page - 1)] else [])
       @ (if (page + 1) * 10 < int (length ms) then [''page|'' @ show_int (page + 1)] else [])
       @ [''back|dates'', ''back|sports'', ''close|x'']"
proof (intro conjI impI)
  assume p: "0 \<le> page"
  show "kb_matches E ms page 10 =
     concat (map (match_rows E) (take 10 (drop (10 * nat page) ms)))
     @ (if page > 0 \<or> (page + 1) * 10 < int (length ms) then
          [(if page > 0 then [(PREVIOUS, ''page|'' @ show_int (page - 1))] else [])
           @ (if (page + 1) * 10 < int (length ms)
              then [(NEXT, ''page|'' @ show_int (page + 1))] else [])]
        else [])
     @ [BACK_DATES_ROW, MENU_SPORTS_ROW, CLOSE_ROW]"
    by (rule kb_matches_eq [OF p])
  show "(PREVIOUS, ''page|'' @ show_int (page - 1)) \<in> set (concat (kb_matches E ms page 10))
        \<longleftrightarrow> page > 0"
    by (rule prev_iff [OF p])
  show "(NEXT, ''page|'' @ show_int (page + 1)) \<in> set (concat (kb_matches E ms page 10))
        \<longleftrightarrow> (page + 1) * 10 < int (length ms)"
    by (rule next_iff [OF p])
  show "match_rows E m =
       [[(py_str (fmt_dt E (start_time m)) @ DASH @ py_str (away m) @ '' @ '' @ py_str (home m),
          ''match|'' @ match_id m)],
        [(TROPHY @ (if league_name m \<noteq> [] then league_name m else league m), ''noop|x'')]]"
    by (rule match_rows_explicit)
  show "map snd (concat (kb_matches E ms page 10)) =
       concat (map (\<lambda>m. [''match|'' @ match_id m, ''noop|x''])
                   (take 10 (drop (10 * nat page) ms)))
       @ (if page > 0 then [''page|'' @ show_int (page - 1)] else [])
       @ (if (page + 1) * 10 < int (length ms) then [''page|'' @ show_int (page + 1)] else [])
       @ [''back|dates'', ''back|sports'', ''close|x'']"
    by (rule kb_matches_actions [OF p])
  assume e: "int (length ms) \<le> page * 10"
  have "length ms \<le> 10 * nat page" using e p by linarith
  then have d: "drop (10 * nat page) ms = []" by simp
  have n: "\<not> (page + 1) * 10 < int (length ms)" using e by (simp add: distrib_right)
  show "kb_matches E ms page 10 =
          (if page > 0 then [[(PREVIOUS, ''page|'' @ show_int (page - 1))]] else [])
          @ [BACK_DATES_ROW, MENU_SPORTS_ROW, CLOSE_ROW]"
    using n by (simp add: kb_matches_eq [OF p] d)
next
  assume a: "hd (split_bar data) = ''page'' \<and> bind (part (split_bar data) 1) int_of_str = Inr page"
  then have r: "raised (on_page E (split_bar data) ud w) = None
     \<and> screens (on_page E (split_bar data) ud w)
       = [(list_title (ud_sport ud) (ud_date_choice ud), Some (kb_matches E (stored ud) page 10))]"
    using on_page_renders by blast
  from a r show "raised (on_button E data ud w) = None" by (simp add: on_button_page)
  from a r show "screens (on_button E data ud w)
          = [(list_title (ud_sport ud) (ud_date_choice ud),
              Some (kb_matches E (stored ud) page 10))]"
    by (simp add: on_button_page)
qed

theorem kb_matches_pagination_witness:
  "map snd (concat (kb_matches down_env twenty_three 0 10))
     = [''match|0'', ''noop|x'', ''match|1'', ''noop|x'', ''match|2'', ''noop|x'',
        ''match|3'', ''noop|x'', ''match|4'', ''noop|x'', ''match|5'', ''noop|x'',
        ''match|6'', ''noop|x'', ''match|7'', ''noop|x'', ''match|8'', ''noop|x'',
        ''match|9'', ''noop|x'', ''page|1'', ''back|dates'', ''back|sports'', ''close|x'']
   \<and> map snd (concat (kb_matches down_env twenty_three 2 10))
     = [''match|20'', ''noop|x'', ''match|21'', ''noop|x'', ''match|22'', ''noop|x'',
        ''page|1'', ''back|dates'', ''back|sports'', ''close|x'']
   \<and> (PREVIOUS, ''page|1'') \<in> set (concat (kb_matches down_env twenty_three 2 10))
   \<and> (NEXT, ''page|'' @ show_int 3) \<notin> set (concat (kb_matches down_env twenty_three 2 10))
   \<and> kb_matches down_env twenty_three 7 10
     = [[(PREVIOUS, ''page|6'')], BACK_DATES_ROW, MENU_SPORTS_ROW, CLOSE_ROW]
   \<and> raised (on_button down_env ''page|7'' nhl_user fresh_world) = None"
proof -
  have s1: "show_int 1 = ''1''" by code_simp
  have s6: "show_int 6 = ''6''" by code_simp
  have len: "length twenty_three = 23" by (simp add: twenty_three_def)
  have p0: "(0::int) \<le> 0" and p2: "(0::int) \<le> 2" and p7: "(0::int) \<le> 7" by simp_all
  note t0 = kb_matches_pagination [OF p0, of down_env twenty_three]
  note t2 = kb_matches_pagination [OF p2, of down_env twenty_three]
  note t7 = kb_matches_pagination [OF p7, of down_env twenty_three "''page|7''" nhl_user
      fresh_world]
  have i7: "int_of_str ''7'' = Inr 7" by code_simp
  have h: "hd (split_bar ''page|7'') = ''page''
           \<and> bind (part (split_bar ''page|7'') 1) int_of_str = Inr 7"
    using i7 by (simp add: part_def bind_def)
  have r0: "concat (map (\<lambda>m. [''match|'' @ match_id m, ''noop|x''])
                   (take 10 (drop (10 * nat 0) twenty_three)))
       @ (if (0::int) > 0 then [''page|'' @ show_int (0 - 1)] else [])
       @ (if ((0::int) + 1) * 10 < int (length twenty_three)
          then [''page|'' @ show_int (0 + 1)] else [])
       @ [''back|dates'', ''back|sports'', ''close|x'']
     = [''match|0'', ''noop|x'', ''match|1'', ''noop|x'', ''match|2'', ''noop|x'',
        ''match|3'', ''noop|x'', ''match|4'', ''noop|x'', ''match|5'', ''noop|x'',
        ''match|6'', ''noop|x'', ''match|7'', ''noop|x'', ''match|8'', ''noop|x'',
        ''match|9'', ''noop|x'', ''page|1'', ''back|dates'', ''back|sports'', ''close|x'']"
    by code_simp
  have r2: "concat (map (\<lambda>m. [''match|'' @ match_id m, ''noop|x''])
                   (take 10 (drop (10 * nat 2) twenty_three)))
       @ (if (2::int) > 0 then [''page|'' @ show_int (2 - 1)] else [])
       @ (if ((2::int) + 1) * 10 < int (length twenty_three)
          then [''page|'' @ show_int (2 + 1)] else [])
       @ [''back|dates'', ''back|sports'', ''close|x'']
     = [''match|20'', ''noop|x'', ''match|21'', ''noop|x'', ''match|22'', ''noop|x'',
        ''page|1'', ''back|dates'', ''back|sports'', ''close|x'']"
    by code_simp
  note last0 = t0 [THEN conjunct2, THEN conjunct2, THEN conjunct2, THEN conjunct2,
      THEN conjunct2, THEN conjunct2]
  note last2 = t2 [THEN conjunct2, THEN conjunct2, THEN conjunct2, THEN conjunct2,
      THEN conjunct2, THEN conjunct2]
  have a0: "map snd (concat (kb_matches down_env twenty_three 0 10))
     = [''match|0'', ''noop|x'', ''match|1'', ''noop|x'', ''match|2'', ''noop|x'',
        ''match|3'', ''noop|x'', ''match|4'', ''noop|x'', ''match|5'', ''noop|x'',
        ''match|6'', ''noop|x'', ''match|7'', ''noop|x'', ''match|8'', ''noop|x'',
        ''match|9'', ''noop|x'', ''page|1'', ''back|dates'', ''back|sports'', ''close|x'']"
    using last0 r0 by (rule trans)
  have a2: "map snd (concat (kb_matches down_env twenty_three 2 10))
     = [''match|20'', ''noop|x'', ''match|21'', ''noop|x'', ''match|22'', ''noop|x'',
        ''page|1'', ''back|dates'', ''back|sports'', ''close|x'']"
    using last2 r2 by (rule trans)
  have b: "(PREVIOUS, ''page|1'') \<in> set (concat (kb_matches down_env twenty_three 2 10))"
    using t2 [THEN conjunct2, THEN conjunct1] s1 by simp
  have c: "(NEXT, ''page|'' @ show_int 3)
           \<notin> set (concat (kb_matches down_env twenty_three 2 10))"
    using t2 [THEN conjunct2, THEN conjunct2, THEN conjunct1] len by simp
  have d: "kb_matches down_env twenty_three 7 10
           = [[(PREVIOUS, ''page|6'')], BACK_DATES_ROW, MENU_SPORTS_ROW, CLOSE_ROW]"
    using t7 [THEN conjunct2, THEN conjunct2, THEN conjunct2, THEN conjunct1] s6 len by simp
  have e: "raised (on_button down_env ''page|7'' nhl_user fresh_world) = None"
    using t7 [THEN conjunct2, THEN conjunct2, THEN conjunct2, THEN conjunct2, THEN conjunct1] h
    by blast
  show ?thesis using a0 a2 b c d e by blast
qed

section \<open>Opening a match\<close>

lemma on_button_match:
  "hd (split_bar data) = ''match'' \<Longrightarrow> on_button E data ud w = on_match E (split_bar data) ud w"
  by (simp add: on_button_def Let_def)

lemma on_match_not_found:
  assumes "part parts 1 = Inr mid"
    and "ud_sport ud = None \<or> ud_sport ud = Some [] \<or> mid \<notin> match_id ` set (stored ud)"
  shows "on_match E parts ud w = finish ud w [(MATCH_NOT_FOUND, Some kb_sports)]"
proof -
  have f: "mid \<notin> match_id ` set (stored ud) \<Longrightarrow> find (\<lambda>m. match_id m = mid) (stored ud) = None"
    by (auto simp: find_None_iff)
  show ?thesis
    using assms f
    by (auto simp: on_match_def Let_def split: option.splits)
qed

lemma kb_sports_actions:
  "map snd (concat kb_sports) =
     [''sport|soccer'', ''sport|basketball'', ''sport|tennis'', ''sport|nhl'', ''sport|nfl'',
      ''sport|mlb'', ''close|x'']"
  by (simp add: kb_sports_def SPORT_LABELS_def CLOSE_ROW_def)

lemma on_match_tennis:
  assumes "part parts 1 = Inr mid" and "ud_sport ud = Some ''tennis''"
    and "find (\<lambda>m. match_id m = mid) (stored ud) = Some m"
  shows "on_match E parts ud w =
     finish ud w
       [(PREPARING, None),
        (detail_text E ''tennis'' m FORM_UNAVAILABLE FORM_UNAVAILABLE [],
         Some (detail_keyboard ud))]"
  using assms
  by (simp add: on_match_def Let_def forms_for_sport_def extra_lines_for_def bindw_def)

text \<open>
  Claim C6. An open-match action whose id is not in the stored list, or that comes when no
  sport is selected, ends without raising, sends one screen, the not-found message with
  the sports menu as its keyboard, and leaves the user data and the shared state as they
  were: nothing is fetched and no match is shown.
\<close>

theorem open_match_not_found:
  assumes "hd (split_bar data) = ''match''"
    and "part (split_bar data) 1 = Inr mid"
    and "ud_sport ud = None \<or> ud_sport ud = Some [] \<or> mid \<notin> match_id ` set (stored ud)"
  shows "raised (on_button E data ud w) = None
       \<and> screens (on_button E data ud w) = [(MATCH_NOT_FOUND, Some kb_sports)]
       \<and> world_after (on_button E data ud w) = w
       \<and> user (on_button E data ud w) = ud
       \<and> map snd (concat kb_sports) =
           [''sport|soccer'', ''sport|basketball'', ''sport|tennis'', ''sport|nhl'',
            ''sport|nfl'', ''sport|mlb'', ''close|x'']"
  using on_match_not_found [OF assms(2,3), of E w] kb_sports_actions
  by (simp add: on_button_match [OF assms(1)] finish_def)

theorem open_match_not_found_witness:
  "screens (on_button down_env ''match|404'' nhl_user fresh_world)
     = [(MATCH_NOT_FOUND, Some kb_sports)]
   \<and> world_after (on_button down_env ''match|404'' nhl_user fresh_world) = fresh_world
   \<and> raised (on_button down_env ''match|404'' cleared fresh_world) = None"
proof -
  have a: "hd (split_bar ''match|404'') = ''match''" by simp
  have b: "part (split_bar ''match|404'') 1 = Inr ''404''" by (simp add: part_def)
  have c: "ud_sport nhl_user = None \<or> ud_sport nhl_user = Some []
           \<or> ''404'' \<notin> match_id ` set (stored nhl_user)"
    by (simp add: nhl_user_def cleared_def stored_def game_def)
  have d: "ud_sport cleared = None \<or> ud_sport cleared = Some []
           \<or> ''404'' \<notin> match_id ` set (stored cleared)"
    by (simp add: cleared_def)
  show ?thesis
    using open_match_not_found [OF a b c, of down_env fresh_world]
      open_match_not_found [OF a b d, of down_env fresh_world]
    by simp
qed

text \<open>
  Claim C10. Opening a stored match while the sport is tennis leaves the shared state
  untouched, so that no request at all is made, and the page shows the unavailable
  placeholder under the home name and under the away name.
\<close>

theorem tennis_detail_without_form:
  assumes "hd (split_bar data) = ''match''"
    and "part (split_bar data) 1 = Inr mid"
    and "ud_sport ud = Some ''tennis''"
    and "find (\<lambda>m. match_id m = mid) (stored ud) = Some m"
  shows "raised (on_button E data ud w) = None
       \<and> world_after (on_button E data ud w) = w
       \<and> screens (on_button E data ud w) =
           [(PREPARING, None),
            (join [CHR 0x0A] (detail_lines E ''tennis'' m FORM_UNAVAILABLE FORM_UNAVAILABLE []),
             Some (detail_keyboard ud))]
       \<and> HOME_ICON @ py_str (home m) @ [CHR 0x0A] @ FORM_UNAVAILABLE
           \<in> set (detail_lines E ''tennis'' m FORM_UNAVAILABLE FORM_UNAVAILABLE [])
       \<and> AWAY_ICON @ py_str (away m) @ [CHR 0x0A] @ FORM_UNAVAILABLE
           \<in> set (detail_lines E ''tennis'' m FORM_UNAVAILABLE FORM_UNAVAILABLE [])"
  using on_match_tennis [OF assms(2,3,4), of E w]
  by (simp add: on_button_match [OF assms(1)] finish_def detail_text_def detail_lines_def)

theorem tennis_detail_without_form_witness:
  "world_after (on_button wta_only_env ''match|77'' tennis_user fresh_world) = fresh_world
   \<and> trace (world_after (on_button wta_only_env ''match|77'' tennis_user fresh_world)) = []
   \<and> HOME_ICON @ ''A'' @ [CHR 0x0A] @ FORM_UNAVAILABLE
       \<in> set (detail_lines wta_only_env ''tennis''
                (game ''tennis'' ''wta'' ''WTA'' ''77'' ''2024-01-01T10:00Z'' ''A'' ''B'')
                FORM_UNAVAILABLE FORM_UNAVAILABLE [])"
proof -
  have a: "hd (split_bar ''match|77'') = ''match''" by simp
  have b: "part (split_bar ''match|77'') 1 = Inr ''77''" by (simp add: part_def)
  have c: "ud_sport tennis_user = Some ''tennis''" by (simp add: tennis_user_def cleared_def)
  have d: "find (\<lambda>m. match_id m = ''77'') (stored tennis_user)
           = Some (game ''tennis'' ''wta'' ''WTA'' ''77'' ''2024-01-01T10:00Z'' ''A'' ''B'')"
    by (simp add: tennis_user_def cleared_def stored_def game_def)
  have h: "py_str (home (game ''tennis'' ''wta'' ''WTA'' ''77'' ''2024-01-01T10:00Z'' ''A'' ''B''))
           = ''A''"
    by (simp add: game_def)
  have t: "trace fresh_world = []" by (simp add: fresh_world_def)
  show ?thesis
    using tennis_detail_without_form [OF a b c d, of wta_only_env fresh_world] h t
    by simp
qed

section \<open>Properties of the enrichment fetchers\<close>

lemma try_except_returns:
  "\<exists>s w1. try_except r d = (Inr s, w1) \<and> ((\<exists>e. fst r = Inl e) \<longrightarrow> s = d)"
proof (cases r)
  case (Pair a w1)
  then show ?thesis by (cases a) (simp_all add: try_except_def)
qed

lemma team_form_espn_returns:
  "\<exists>s w1. team_form_espn E sp lg tid w = (Inr s, w1)"
  using try_except_returns [of "team_form_body E sp lg tid w" FORM_UNAVAILABLE]
  by (auto simp: team_form_espn_def)

lemma nhl_goalies_returns: "\<exists>s w1. nhl_goalies E g w = (Inr s, w1)"
  using try_except_returns [of "nhl_goalies_body E g w" GOALIES_UNAVAILABLE]
  by (auto simp: nhl_goalies_def)

lemma mlb_pitchers_returns: "\<exists>s w1. mlb_pitchers E g w = (Inr s, w1)"
  using try_except_returns [of "mlb_pitchers_body E g w" PITCHERS_UNAVAILABLE]
  by (auto simp: mlb_pitchers_def)

lemma both_forms_returns:
  "\<exists>fh w1 fa w2. team_form_espn E p lg (home_id m) w = (Inr fh, w1)
      \<and> team_form_espn E p lg (away_id m) w1 = (Inr fa, w2)
      \<and> both_forms E p lg m w = (Inr (fh, fa), w2)"
proof -
  obtain fh w1 where a: "team_form_espn E p lg (home_id m) w = (Inr fh, w1)"
    using team_form_espn_returns by blast
  obtain fa w2 where b: "team_form_espn E p lg (away_id m) w1 = (Inr fa, w2)"
    using team_form_espn_returns by blast
  have "both_forms E p lg m w = (Inr (fh, fa), w2)"
    by (simp add: both_forms_def bindw_def a b)
  with a b show ?thesis by blast
qed

lemma forms_for_sport_returns: "\<exists>f w1. forms_for_sport E sp m w = (Inr f, w1)"
proof -
  have b: "\<exists>f w1. both_forms E p lg m w = (Inr f, w1)" for p lg
    using both_forms_returns [of E p lg m w] by blast
  show ?thesis
  proof (cases "sp = ''soccer''")
    case True
    then show ?thesis using b by (simp add: forms_for_sport_def)
  next
    case n1: False
    show ?thesis
    proof (cases "sp = ''basketball''")
      case True
      then show ?thesis using b by (simp add: forms_for_sport_def)
    next
      case n2: False
      show ?thesis
      proof (cases "sp = ''nfl''")
        case True
        then show ?thesis using b by (simp add: forms_for_sport_def)
      next
        case n3: False
        show ?thesis
        proof (cases "sp = ''nhl''")
          case True
          then show ?thesis using b by (simp add: forms_for_sport_def)
        next
          case n4: False
          show ?thesis
          proof (cases "sp = ''mlb''")
            case True
            then show ?thesis using b by (simp add: forms_for_sport_def)
          next
            case False
            then show ?thesis using n1 n2 n3 n4 by (simp add: forms_for_sport_def)
          qed
        qed
      qed
    qed
  qed
qed

lemma extra_lines_for_returns: "\<exists>x w1. extra_lines_for E sp mid w = (Inr x, w1)"
proof -
  obtain g w1 where g: "nhl_goalies E mid w = (Inr g, w1)" using nhl_goalies_returns by blast
  obtain p w2 where p: "mlb_pitchers E mid w = (Inr p, w2)" using mlb_pitchers_returns by blast
  show ?thesis by (simp add: extra_lines_for_def bindw_def g p)
qed

lemma on_match_completes:
  assumes "part parts 1 = Inr mid"
  shows "raised (on_match E parts ud w) = None"
proof (cases "ud_sport ud")
  case None
  then show ?thesis using assms by (simp add: on_match_def Let_def finish_def)
next
  case (Some sp)
  show ?thesis
  proof (cases "find (\<lambda>m. match_id m = mid) (stored ud)")
    case None
    then show ?thesis using assms Some by (simp add: on_match_def Let_def finish_def)
  next
    case (Some m)
    obtain f w1 where f: "forms_for_sport E sp m w = (Inr f, w1)"
      using forms_for_sport_returns by blast
    obtain x w2 where x: "extra_lines_for E sp mid w1 = (Inr x, w2)"
      using extra_lines_for_returns by blast
    show ?thesis
      using assms \<open>ud_sport ud = Some sp\<close> Some
      by (simp add: on_match_def Let_def finish_def bindw_def f x)
  qed
qed

lemma on_match_nhl:
  assumes "part parts 1 = Inr mid" and "ud_sport ud = Some ''nhl''"
    and "find (\<lambda>m. match_id m = mid) (stored ud) = Some m"
  shows "\<exists>fh w1 fa w2 g w3.
           team_form_espn E ''hockey'' ''nhl'' (home_id m) w = (Inr fh, w1)
         \<and> team_form_espn E ''hockey'' ''nhl'' (away_id m) w1 = (Inr fa, w2)
         \<and> nhl_goalies E mid w2 = (Inr g, w3)
         \<and> screens (on_match E parts ud w) =
             [(PREPARING, None), (detail_text E ''nhl'' m fh fa [g], Some (detail_keyboard ud))]"
proof -
  obtain fh w1 fa w2 where a: "team_form_espn E ''hockey'' ''nhl'' (home_id m) w = (Inr fh, w1)"
    and b: "team_form_espn E ''hockey'' ''nhl'' (away_id m) w1 = (Inr fa, w2)"
    and c: "both_forms E ''hockey'' ''nhl'' m w = (Inr (fh, fa), w2)"
    using both_forms_returns by blast
  obtain g w3 where g: "nhl_goalies E mid w2 = (Inr g, w3)" using nhl_goalies_returns by blast
  have "screens (on_match E parts ud w) =
          [(PREPARING, None), (detail_text E ''nhl'' m fh fa [g], Some (detail_keyboard ud))]"
    using assms
    by (simp add: on_match_def Let_def finish_def bindw_def forms_for_sport_def
        extra_lines_for_def c g)
  with a b g show ?thesis by blast
qed

lemma on_match_mlb:
  assumes "part parts 1 = Inr mid" and "ud_sport ud = Some ''mlb''"
    and "find (\<lambda>m. match_id m = mid) (stored ud) = Some m"
  shows "\<exists>fh w1 fa w2 p w3.
           team_form_espn E ''baseball'' ''mlb'' (home_id m) w = (Inr fh, w1)
         \<and> team_form_espn E ''baseball'' ''mlb'' (away_id m) w1 = (Inr fa, w2)
         \<and> mlb_pitchers E mid w2 = (Inr p, w3)
         \<and> screens (on_match E parts ud w) =
             [(PREPARING, None),
              (detail_text E ''mlb'' m fh fa [MLB_CAVEAT, p], Some (detail_keyboard ud))]"
proof -
  obtain fh w1 fa w2 where a: "team_form_espn E ''baseball'' ''mlb'' (home_id m) w = (Inr fh, w1)"
    and b: "team_form_espn E ''baseball'' ''mlb'' (away_id m) w1 = (Inr fa, w2)"
    and c: "both_forms E ''baseball'' ''mlb'' m w = (Inr (fh, fa), w2)"
    using both_forms_returns by blast
  obtain p w3 where p: "mlb_pitchers E mid w2 = (Inr p, w3)" using mlb_pitchers_returns by blast
  have "screens (on_match E parts ud w) =
          [(PREPARING, None),
           (detail_text E ''mlb'' m fh fa [MLB_CAVEAT, p], Some (detail_keyboard ud))]"
    using assms
    by (simp add: on_match_def Let_def finish_def bindw_def forms_for_sport_def
        extra_lines_for_def c p)
  with a b p show ?thesis by blast
qed

text \<open>
  Claim C8. The recent-form, goalie and pitcher fetchers return a string on every input,
  the fixed unavailable string whenever their body raises, and never raise themselves.
  An open-match action therefore never raises once its id is read, and the hockey and
  baseball pages show what each fetcher returned in its turn, whatever the others did.
\<close>

theorem enrichment_fetchers_total:
  "(\<exists>s w1. team_form_espn E sp lg tid w = (Inr s, w1)
       \<and> ((\<exists>e. fst (team_form_body E sp lg tid w) = Inl e) \<longrightarrow> s = FORM_UNAVAILABLE))
   \<and> (\<exists>s w1. nhl_goalies E gid w = (Inr s, w1)
       \<and> ((\<exists>e. fst (nhl_goalies_body E gid w) = Inl e) \<longrightarrow> s = GOALIES_UNAVAILABLE))
   \<and> (\<exists>s w1. mlb_pitchers E gid w = (Inr s, w1)
       \<and> ((\<exists>e. fst (mlb_pitchers_body E gid w) = Inl e) \<longrightarrow> s = PITCHERS_UNAVAILABLE))
   \<and> (hd (split_bar data) = ''match'' \<and> part (split_bar data) 1 = Inr mid \<longrightarrow>
        raised (on_button E data ud w) = None)
   \<and> (hd (split_bar data) = ''match'' \<and> part (split_bar data) 1 = Inr mid
        \<and> ud_sport ud = Some ''nhl'' \<and> find (\<lambda>m. match_id m = mid) (stored ud) = Some m \<longrightarrow>
        (\<exists>fh w1 fa w2 g w3.
           team_form_espn E ''hockey'' ''nhl'' (home_id m) w = (Inr fh, w1)
         \<and> team_form_espn E ''hockey'' ''nhl'' (away_id m) w1 = (Inr fa, w2)
         \<and> nhl_goalies E mid w2 = (Inr g, w3)
         \<and> screens (on_button E data ud w) =
             [(PREPARING, None), (detail_text E ''nhl'' m fh fa [g], Some (detail_keyboard ud))]))
   \<and> (hd (split_bar data) = ''match'' \<and> part (split_bar data) 1 = Inr mid
        \<and> ud_sport ud = Some ''mlb'' \<and> find (\<lambda>m. match_id m = mid) (stored ud) = Some m \<longrightarrow>
        (\<exists>fh w1 fa w2 p w3.
           team_form_espn E ''baseball'' ''mlb'' (home_id m) w = (Inr fh, w1)
         \<and> team_form_espn E ''baseball'' ''mlb'' (away_id m) w1 = (Inr fa, w2)
         \<and> mlb_pitchers E mid w2 = (Inr p, w3)
         \<and> screens (on_button E data ud w) =
             [(PREPARING, None),
              (detail_text E ''mlb'' m fh fa [MLB_CAVEAT, p], Some (detail_keyboard ud))]))"
proof (intro conjI impI)
  show "\<exists>s w1. team_form_espn E sp lg tid w = (Inr s, w1)
       \<and> ((\<exists>e. fst (team_form_body E sp lg tid w) = Inl e) \<longrightarrow> s = FORM_UNAVAILABLE)"
    using try_except_returns [of "team_form_body E sp lg tid w" FORM_UNAVAILABLE]
    by (simp add: team_form_espn_def)
  show "\<exists>s w1. nhl_goalies E gid w = (Inr s, w1)
       \<and> ((\<exists>e. fst (nhl_goalies_body E gid w) = Inl e) \<longrightarrow> s = GOALIES_UNAVAILABLE)"
    using try_except_returns [of "nhl_goalies_body E gid w" GOALIES_UNAVAILABLE]
    by (simp add: nhl_goalies_def)
  show "\<exists>s w1. mlb_pitchers E gid w = (Inr s, w1)
       \<and> ((\<exists>e. fst (mlb_pitchers_body E gid w) = Inl e) \<longrightarrow> s = PITCHERS_UNAVAILABLE)"
    using try_except_returns [of "mlb_pitchers_body E gid w" PITCHERS_UNAVAILABLE]
    by (simp add: mlb_pitchers_def)
next
  assume "hd (split_bar data) = ''match'' \<and> part (split_bar data) 1 = Inr mid"
  then show "raised (on_button E data ud w) = None"
    using on_match_completes [of "split_bar data" mid E ud w] by (simp add: on_button_match)
next
  assume "hd (split_bar data) = ''match'' \<and> part (split_bar data) 1 = Inr mid
        \<and> ud_sport ud = Some ''nhl'' \<and> find (\<lambda>m. match_id m = mid) (stored ud) = Some m"
  then show "\<exists>fh w1 fa w2 g w3.
           team_form_espn E ''hockey'' ''nhl'' (home_id m) w = (Inr fh, w1)
         \<and> team_form_espn E ''hockey'' ''nhl'' (away_id m) w1 = (Inr fa, w2)
         \<and> nhl_goalies E mid w2 = (Inr g, w3)
         \<and> screens (on_button E data ud w) =
             [(PREPARING, None), (detail_text E ''nhl'' m fh fa [g], Some (detail_keyboard ud))]"
    using on_match_nhl [of "split_bar data" mid ud m E w] by (simp add: on_button_match)
next
  assume "hd (split_bar data) = ''match'' \<and> part (split_bar data) 1 = Inr mid
        \<and> ud_sport ud = Some ''mlb'' \<and> find (\<lambda>m. match_id m = mid) (stored ud) = Some m"
  then show "\<exists>fh w1 fa w2 p w3.
           team_form_espn E ''baseball'' ''mlb'' (home_id m) w = (Inr fh, w1)
         \<and> team_form_espn E ''baseball'' ''mlb'' (away_id m) w1 = (Inr fa, w2)
         \<and> mlb_pitchers E mid w2 = (Inr p, w3)
         \<and> screens (on_button E data ud w) =
             [(PREPARING, None),
              (detail_text E ''mlb'' m fh fa [MLB_CAVEAT, p], Some (detail_keyboard ud))]"
    using on_match_mlb [of "split_bar data" mid ud m E w] by (simp add: on_button_match)
qed

theorem enrichment_fetchers_total_witness:
  "fst (team_form_espn down_env ''hockey'' ''nhl'' ''1'' fresh_world) = Inr FORM_UNAVAILABLE
   \<and> fst (nhl_goalies down_env ''55'' fresh_world) = Inr GOALIES_UNAVAILABLE
   \<and> fst (mlb_pitchers down_env ''55'' fresh_world) = Inr PITCHERS_UNAVAILABLE
   \<and> raised (on_button down_env ''match|55'' nhl_user fresh_world) = None
   \<and> (\<exists>fh fa g. screens (on_button down_env ''match|55'' nhl_user fresh_world) =
         [(PREPARING, None),
          (detail_text down_env ''nhl''
             (game ''nhl'' ''nhl'' ''NHL'' ''55'' ''2024-01-01T10:00Z'' ''A'' ''B'') fh fa [g],
           Some (detail_keyboard nhl_user))])
   \<and> (\<exists>fh fa p. screens (on_button down_env ''match|55'' mlb_user fresh_world) =
         [(PREPARING, None),
          (detail_text down_env ''mlb''
             (game ''mlb'' ''mlb'' ''MLB'' ''55'' ''2024-01-01T10:00Z'' ''A'' ''B'') fh fa
             [MLB_CAVEAT, p],
           Some (detail_keyboard mlb_user))])"
proof -
  let ?gn = "game ''nhl'' ''nhl'' ''NHL'' ''55'' ''2024-01-01T10:00Z'' ''A'' ''B''"
  let ?gm = "game ''mlb'' ''mlb'' ''MLB'' ''55'' ''2024-01-01T10:00Z'' ''A'' ''B''"
  note t = enrichment_fetchers_total [where E = down_env and sp = "''hockey''" and lg = "''nhl''"
      and tid = "''1''" and w = fresh_world and gid = "''55''" and data = "''match|55''"
      and mid = "''55''" and ud = nhl_user and m = ?gn]
  note u = enrichment_fetchers_total [where E = down_env and w = fresh_world
      and data = "''match|55''" and mid = "''55''" and ud = mlb_user and m = ?gm]
  have f: "\<exists>e. fst (team_form_body down_env ''hockey'' ''nhl'' ''1'' fresh_world) = Inl e"
    by (simp add: team_form_body_def http_get_json_def down_env_def fresh_world_def
        cache_contains_def bind_def Let_def)
  have g: "\<exists>e. fst (nhl_goalies_body down_env ''55'' fresh_world) = Inl e"
    by (simp add: nhl_goalies_body_def http_get_json_def down_env_def fresh_world_def
        cache_contains_def bind_def Let_def)
  have p: "\<exists>e. fst (mlb_pitchers_body down_env ''55'' fresh_world) = Inl e"
    by (simp add: mlb_pitchers_body_def http_get_json_def down_env_def fresh_world_def
        cache_contains_def bind_def Let_def)
  have a: "hd (split_bar ''match|55'') = ''match'' \<and> part (split_bar ''match|55'') 1 = Inr ''55''"
    by (simp add: part_def)
  have hn: "ud_sport nhl_user = Some ''nhl''
            \<and> find (\<lambda>m. match_id m = ''55'') (stored nhl_user) = Some ?gn"
    by (simp add: nhl_user_def cleared_def stored_def game_def)
  have hm: "ud_sport mlb_user = Some ''mlb''
            \<and> find (\<lambda>m. match_id m = ''55'') (stored mlb_user) = Some ?gm"
    by (simp add: mlb_user_def cleared_def stored_def game_def)
  have 1: "fst (team_form_espn down_env ''hockey'' ''nhl'' ''1'' fresh_world) = Inr FORM_UNAVAILABLE"
    using t [THEN conjunct1] f by auto
  have 2: "fst (nhl_goalies down_env ''55'' fresh_world) = Inr GOALIES_UNAVAILABLE"
    using t [THEN conjunct2, THEN conjunct1] g by auto
  have 3: "fst (mlb_pitchers down_env ''55'' fresh_world) = Inr PITCHERS_UNAVAILABLE"
    using t [THEN conjunct2, THEN conjunct2, THEN conjunct1] p by auto
  have 4: "raised (on_button down_env ''match|55'' nhl_user fresh_world) = None"
    using t [THEN conjunct2, THEN conjunct2, THEN conjunct2, THEN conjunct1] a by blast
  have 5: "\<exists>fh fa g. screens (on_button down_env ''match|55'' nhl_user fresh_world) =
         [(PREPARING, None),
          (detail_text down_env ''nhl'' ?gn fh fa [g], Some (detail_keyboard nhl_user))]"
    using t [THEN conjunct2, THEN conjunct2, THEN conjunct2, THEN conjunct2, THEN conjunct1]
      a hn by blast
  have 6: "\<exists>fh fa p. screens (on_button down_env ''match|55'' mlb_user fresh_world) =
         [(PREPARING, None),
          (detail_text down_env ''mlb'' ?gm fh fa [MLB_CAVEAT, p],
           Some (detail_keyboard mlb_user))]"
    using u [THEN conjunct2, THEN conjunct2, THEN conjunct2, THEN conjunct2, THEN conjunct2]
      a hm by blast
  show ?thesis using 1 2 3 4 5 6 by blast
qed

section \<open>Properties of the response cache\<close>

lemma evict_subset: "set (evict c) \<subseteq> set c"
  by (induction c) auto

lemma evict_length: "length (evict c) + 1 \<le> maxsize"
  by (induction c) (auto simp: maxsize_def)

lemma stale_by_setitem_same: "stale_by k (t0 + ttl) (cache_setitem c t0 k v)"
  by (auto simp: stale_by_def cache_setitem_def Let_def)

lemma stale_by_setitem_other:
  assumes "stale_by k t c" and "k' \<noteq> k"
  shows "stale_by k t (cache_setitem c t' k' v)"
proof -
  define c2 where
    "c2 = (if k' \<in> fst ` set (expire c t') then expire c t' else evict (expire c t'))"
  have "set (expire c t') \<subseteq> set c" by (auto simp: expire_def)
  then have sub: "set c2 \<subseteq> set c"
    using evict_subset [of "expire c t'"] by (auto simp: c2_def)
  have eq: "cache_setitem c t' k' v = filter (\<lambda>x. fst x \<noteq> k') c2 @ [(k', v, t' + ttl)]"
    by (simp add: cache_setitem_def Let_def c2_def)
  show ?thesis
    unfolding eq stale_by_def
  proof (intro ballI impI)
    fix x
    assume x: "x \<in> set (filter (\<lambda>x. fst x \<noteq> k') c2 @ [(k', v, t' + ttl)])" and k: "fst x = k"
    then have "x \<in> set c2" using assms(2) by auto
    then have "x \<in> set c" using sub by blast
    then show "snd (snd x) \<le> t" using assms(1) k unfolding stale_by_def by blast
  qed
qed

lemma stale_by_getitem:
  assumes "stale_by k t c"
  shows "stale_by k t (snd (cache_getitem c t' k'))"
proof (cases "map_of c k'")
  case None
  then show ?thesis using assms by (simp add: cache_getitem_def)
next
  case (Some ve)
  obtain v e where ve: "ve = (v, e)" by (cases ve)
  have "(k', v, e) \<in> set c" using Some ve by (auto dest: map_of_SomeD)
  then show ?thesis
    using assms Some ve unfolding stale_by_def cache_getitem_def by auto
qed

lemma stale_by_apply_op:
  "stale_by k t c \<Longrightarrow> \<not> puts_key k op \<Longrightarrow> stale_by k t (apply_op c op)"
  by (cases op) (simp_all add: stale_by_getitem stale_by_setitem_other)

lemma stale_by_foldl:
  "stale_by k t c \<Longrightarrow> list_all (\<lambda>op. \<not> puts_key k op) ops \<Longrightarrow>
   stale_by k t (foldl apply_op c ops)"
  by (induction ops arbitrary: c) (simp_all add: stale_by_apply_op)

lemma stale_by_miss:
  assumes "stale_by k t0 c" and "t0 < t"
  shows "\<not> cache_contains c t k \<and> fst (cache_getitem c t k) = Inl KeyError"
proof (cases "map_of c k")
  case None
  then show ?thesis by (simp add: cache_contains_def cache_getitem_def)
next
  case (Some ve)
  obtain v e where ve: "ve = (v, e)" by (cases ve)
  have "(k, v, e) \<in> set c" using Some ve by (auto dest: map_of_SomeD)
  then have "e \<le> t0" using assms(1) by (auto simp: stale_by_def)
  then show ?thesis using Some ve assms(2) by (simp add: cache_contains_def cache_getitem_def)
qed

lemma filter_drops_present:
  "k \<in> fst ` set c \<Longrightarrow> length (filter (\<lambda>x. fst x \<noteq> k) c) + 1 \<le> length c"
proof (induction c)
  case Nil
  then show ?case by simp
next
  case (Cons x c)
  show ?case
  proof (cases "fst x = k")
    case True
    have "length (filter (\<lambda>x. fst x \<noteq> k) c) \<le> length c" by (rule length_filter_le)
    then show ?thesis using True by simp
  next
    case False
    then have "k \<in> fst ` set c" using Cons.prems by auto
    then show ?thesis using Cons.IH False by simp
  qed
qed

lemma setitem_bounded:
  assumes "length c \<le> maxsize"
  shows "length (cache_setitem c t k v) \<le> maxsize"
proof -
  let ?c1 = "expire c t"
  have "length ?c1 \<le> length c" unfolding expire_def by (rule length_filter_le)
  then have l1: "length ?c1 \<le> maxsize" using assms by (rule order_trans)
  show ?thesis
  proof (cases "k \<in> fst ` set ?c1")
    case True
    have eq: "length (cache_setitem c t k v) = length (filter (\<lambda>x. fst x \<noteq> k) ?c1) + 1"
      using True by (simp add: cache_setitem_def Let_def)
    have "length (filter (\<lambda>x. fst x \<noteq> k) ?c1) + 1 \<le> length ?c1"
      by (rule filter_drops_present [OF True])
    then show ?thesis using eq l1 by linarith
  next
    case False
    have eq: "length (cache_setitem c t k v)
              = length (filter (\<lambda>x. fst x \<noteq> k) (evict ?c1)) + 1"
      using False by (simp add: cache_setitem_def Let_def)
    have f: "length (filter (\<lambda>x. fst x \<noteq> k) (evict ?c1)) \<le> length (evict ?c1)"
      by (rule length_filter_le)
    have e: "length (evict ?c1) + 1 \<le> maxsize" by (rule evict_length)
    show ?thesis using eq f e by linarith
  qed
qed

lemma getitem_bounded: "length (snd (cache_getitem c t k)) \<le> length c"
proof (cases "map_of c k")
  case None
  then show ?thesis by (simp add: cache_getitem_def)
next
  case (Some ve)
  obtain v e where ve: "ve = (v, e)" by (cases ve)
  have "k \<in> fst ` set c" using Some by (metis map_of_eq_None_iff option.distinct(1))
  then have d: "length (filter (\<lambda>x. fst x \<noteq> k) c) + 1 \<le> length c"
    by (rule filter_drops_present)
  show ?thesis
  proof (cases "t < e")
    case True
    then have "length (snd (cache_getitem c t k)) = length (filter (\<lambda>x. fst x \<noteq> k) c) + 1"
      using Some ve by (simp add: cache_getitem_def)
    then show ?thesis using d by linarith
  next
    case False
    then show ?thesis using Some ve by (simp add: cache_getitem_def)
  qed
qed

lemma apply_op_bounded: "length c \<le> maxsize \<Longrightarrow> length (apply_op c op) \<le> maxsize"
proof (cases op)
  case (Contains k t)
  assume "length c \<le> maxsize"
  then show ?thesis using Contains by simp
next
  case (Getitem k t)
  assume a: "length c \<le> maxsize"
  have "length (snd (cache_getitem c t k)) \<le> length c" by (rule getitem_bounded)
  then show ?thesis using a Getitem by simp
next
  case (Setitem k v t)
  assume "length c \<le> maxsize"
  then show ?thesis using Setitem by (simp add: setitem_bounded)
qed

lemma foldl_bounded: "length c \<le> maxsize \<Longrightarrow> length (foldl apply_op c ops) \<le> maxsize"
  by (induction ops arbitrary: c) (simp_all add: apply_op_bounded)

lemma full_cache_evicts_oldest:
  assumes "length c = maxsize" and "list_all (\<lambda>x. t < snd (snd x)) c" and "k \<notin> fst ` set c"
  shows "cache_setitem c t k v = tl c @ [(k, v, t + ttl)]"
proof -
  have e: "expire c t = c" using assms(2) by (simp add: expire_def list_all_iff)
  obtain x xs where c: "c = x # xs" using assms(1) by (cases c) (simp_all add: maxsize_def)
  have "evict xs = xs" using assms(1) c by (cases xs) simp_all
  then have ev: "evict c = xs" using assms(1) c by simp
  have "filter (\<lambda>y. fst y \<noteq> k) xs = xs" using assms(3) c by (auto simp: filter_id_conv)
  then show ?thesis using e ev assms(3) c by (simp add: cache_setitem_def Let_def)
qed

lemma http_get_json_miss:
  "\<not> cache_contains (CACHE w) (now w) (url @ ''|'' @ py_str (JObj params)) \<Longrightarrow>
   fst (http_get_json E url params w) = fst (net E url params (now w))"
  by (simp add: http_get_json_def Let_def split: prod.splits sum.splits)

lemma tracked_filter: "tracked i lu c \<Longrightarrow> tracked i lu (filter P c)"
  by (auto simp: tracked_def distinct_map_filter sorted_wrt_filter)

lemma tracked_tl: "tracked i lu (x # xs) \<Longrightarrow> tracked i lu xs"
  by (simp add: tracked_def)

lemma tracked_evict: "tracked i lu c \<Longrightarrow> tracked i lu (evict c)"
proof (induction c)
  case Nil
  then show ?case by simp
next
  case (Cons x xs)
  then show ?case using tracked_tl [of i lu x xs] by simp
qed

lemma tracked_append_used:
  assumes t: "tracked i lu d" and k: "k \<notin> fst ` set d"
  shows "tracked (Suc i) (lu(k \<mapsto> i)) (d @ [(k, v, e)])"
proof -
  have same: "last_use (lu(k \<mapsto> i)) (fst x) = last_use lu (fst x)" if "x \<in> set d" for x
    using that k by (auto simp: last_use_def)
  have new: "last_use (lu(k \<mapsto> i)) k = i" by (simp add: last_use_def)
  have d1: "distinct (map fst (d @ [(k, v, e)]))" using t k by (simp add: tracked_def)
  have b: "\<forall>x \<in> set (d @ [(k, v, e)]). last_use (lu(k \<mapsto> i)) (fst x) < Suc i"
  proof
    fix x assume "x \<in> set (d @ [(k, v, e)])"
    then consider "x \<in> set d" | "x = (k, v, e)" by auto
    then show "last_use (lu(k \<mapsto> i)) (fst x) < Suc i"
    proof cases
      case 1
      then have "last_use lu (fst x) < i" using t by (simp add: tracked_def)
      then show ?thesis using same [OF 1] by simp
    next
      case 2
      then show ?thesis using new by simp
    qed
  qed
  have s0: "sorted_wrt (\<lambda>x y. last_use lu (fst x) < last_use lu (fst y)) d"
    using t by (simp add: tracked_def)
  have s1: "sorted_wrt (\<lambda>x y. last_use (lu(k \<mapsto> i)) (fst x) < last_use (lu(k \<mapsto> i)) (fst y)) d"
    using s0 same by (metis (no_types, lifting) sorted_wrt_mono_rel)
  have s2: "\<forall>x \<in> set d. last_use (lu(k \<mapsto> i)) (fst x) < last_use (lu(k \<mapsto> i)) k"
  proof
    fix x assume x: "x \<in> set d"
    then have "last_use lu (fst x) < i" using t by (simp add: tracked_def)
    then show "last_use (lu(k \<mapsto> i)) (fst x) < last_use (lu(k \<mapsto> i)) k"
      using same [OF x] new by simp
  qed
  have s: "sorted_wrt (\<lambda>x y. last_use (lu(k \<mapsto> i)) (fst x) < last_use (lu(k \<mapsto> i)) (fst y))
             (d @ [(k, v, e)])"
    using s1 s2 by (simp add: sorted_wrt_append)
  show ?thesis unfolding tracked_def using d1 b s by blast
qed

lemma tracked_Suc: "tracked i lu c \<Longrightarrow> tracked (Suc i) lu c"
  by (auto simp: tracked_def less_Suc_eq)

lemma filter_key_absent: "k \<notin> fst ` set (filter (\<lambda>x. fst x \<noteq> k) c)"
  by auto

lemma tracked_getitem:
  assumes "tracked i lu c"
  shows "tracked (Suc i) (case used_key c (Getitem k t) of Some k' \<Rightarrow> lu(k' \<mapsto> i) | None \<Rightarrow> lu)
           (snd (cache_getitem c t k))"
proof (cases "cache_contains c t k")
  case False
  then have "snd (cache_getitem c t k) = c"
    by (auto simp: cache_contains_def cache_getitem_def split: option.splits)
  then show ?thesis using False assms by (simp add: tracked_Suc)
next
  case True
  then obtain v e where m: "map_of c k = Some (v, e)" and l: "t < e"
    by (auto simp: cache_contains_def split: option.splits)
  have eq: "snd (cache_getitem c t k) = filter (\<lambda>x. fst x \<noteq> k) c @ [(k, v, e)]"
    using m l by (simp add: cache_getitem_def)
  have "tracked (Suc i) (lu(k \<mapsto> i)) (filter (\<lambda>x. fst x \<noteq> k) c @ [(k, v, e)])"
    by (rule tracked_append_used [OF tracked_filter [OF assms] filter_key_absent])
  then show ?thesis using True eq by simp
qed

lemma tracked_setitem:
  assumes "tracked i lu c"
  shows "tracked (Suc i) (lu(k \<mapsto> i)) (cache_setitem c t k v)"
proof -
  define c2 where
    "c2 = (if k \<in> fst ` set (expire c t) then expire c t else evict (expire c t))"
  have e: "tracked i lu (expire c t)" unfolding expire_def by (rule tracked_filter [OF assms])
  have t2: "tracked i lu c2" using e tracked_evict [OF e] by (simp add: c2_def)
  have eq: "cache_setitem c t k v = filter (\<lambda>x. fst x \<noteq> k) c2 @ [(k, v, t + ttl)]"
    by (simp add: cache_setitem_def Let_def c2_def)
  show ?thesis unfolding eq
    by (rule tracked_append_used [OF tracked_filter [OF t2] filter_key_absent])
qed

lemma tracked_step:
  assumes "tracked i lu c"
  shows "tracked (Suc i) (case used_key c op of Some k \<Rightarrow> lu(k \<mapsto> i) | None \<Rightarrow> lu)
           (apply_op c op)"
proof (cases op)
  case (Contains k t)
  then show ?thesis using assms by (simp add: tracked_Suc)
next
  case (Getitem k t)
  then show ?thesis using tracked_getitem [OF assms, of k t] by simp
next
  case (Setitem k v t)
  then show ?thesis using tracked_setitem [OF assms, of k t v] by simp
qed

lemma tracked_track:
  "tracked i lu c \<Longrightarrow> track ops i (c, lu) = (c', lu') \<Longrightarrow> tracked (i + length ops) lu' c'"
proof (induction ops arbitrary: i c lu)
  case Nil
  then show ?case by simp
next
  case (Cons op ops)
  let ?lu = "case used_key c op of Some k \<Rightarrow> lu(k \<mapsto> i) | None \<Rightarrow> lu"
  have s: "tracked (Suc i) ?lu (apply_op c op)" by (rule tracked_step [OF Cons.prems(1)])
  have r: "track ops (Suc i) (apply_op c op, ?lu) = (c', lu')" using Cons.prems(2) by simp
  show ?case using Cons.IH [OF s r] by simp
qed

lemma oldest_is_evicted:
  assumes t: "tracked i lu c" and full: "length c = maxsize"
    and live: "list_all (\<lambda>x. t < snd (snd x)) c" and new: "k \<notin> fst ` set c"
  shows "\<exists>x \<in> set c. (\<forall>y \<in> set c. y \<noteq> x \<longrightarrow> last_use lu (fst x) < last_use lu (fst y))
           \<and> set (cache_setitem c t k v) = (set c - {x}) \<union> {(k, v, t + ttl)}"
proof -
  obtain x xs where c: "c = x # xs" using full by (cases c) (simp_all add: maxsize_def)
  have eq: "cache_setitem c t k v = tl c @ [(k, v, t + ttl)]"
    by (rule full_cache_evicts_oldest [OF full live new])
  have d: "distinct (map fst (x # xs))" using t c by (simp add: tracked_def)
  then have x: "x \<notin> set xs" by auto
  have s: "\<forall>y \<in> set xs. last_use lu (fst x) < last_use lu (fst y)"
    using t c by (simp add: tracked_def)
  have 1: "\<forall>y \<in> set c. y \<noteq> x \<longrightarrow> last_use lu (fst x) < last_use lu (fst y)"
    using s c by auto
  have 2: "set (cache_setitem c t k v) = (set c - {x}) \<union> {(k, v, t + ttl)}"
    using eq c x by auto
  show ?thesis using 1 2 c by auto
qed

lemma hit_moves_to_end:
  "cache_contains c t k \<Longrightarrow>
   \<exists>v e. cache_getitem c t k = (Inr v, filter (\<lambda>x. fst x \<noteq> k) c @ [(k, v, e)])"
  by (auto simp: cache_contains_def cache_getitem_def split: option.splits)

text \<open>
  Claim C5. A key put at some time is reported missing by any lookup made more than the
  sixty seconds of the time to live later, whatever lookups and puts of other keys came
  in between, and \<open>http_get_json\<close> then asks the network again; the cache never grows
  beyond 2048 entries, and a put of a new key into a full cache of live entries removes
  the least recently used entry, the head of the list. A lookup that hits makes its
  entry the most recent one. Along any run of operations the entries stay in the order
  of their last use, so the entry that such a put removes is the one whose last use, by
  a put or by a lookup that hit, is the oldest among the entries held.
\<close>

theorem cache_expiry_and_bound:
  "(list_all (\<lambda>op. \<not> puts_key k op) ops \<and> t0 + ttl < t \<longrightarrow>
      \<not> cache_contains (foldl apply_op (cache_setitem c t0 k v) ops) t k
      \<and> fst (cache_getitem (foldl apply_op (cache_setitem c t0 k v) ops) t k) = Inl KeyError)
   \<and> ttl = 60 \<and> maxsize = 2048
   \<and> (length c \<le> maxsize \<longrightarrow> length (foldl apply_op c ops) \<le> maxsize)
   \<and> (length c = maxsize \<and> list_all (\<lambda>x. t < snd (snd x)) c \<and> k \<notin> fst ` set c \<longrightarrow>
        cache_setitem c t k v = tl c @ [(k, v, t + ttl)])
   \<and> (\<not> cache_contains (CACHE w) (now w) (url @ ''|'' @ py_str (JObj params)) \<longrightarrow>
        fst (http_get_json E url params w) = fst (net E url params (now w)))
   \<and> (cache_contains c t k \<longrightarrow>
        (\<exists>v' e. cache_getitem c t k
                 = (Inr v', filter (\<lambda>x. fst x \<noteq> k) c @ [(k, v', e)])))
   \<and> tracked 0 (\<lambda>k. None) []
   \<and> (tracked i lu c \<and> track ops i (c, lu) = (c', lu') \<and> length c' = maxsize
        \<and> list_all (\<lambda>x. t < snd (snd x)) c' \<and> k \<notin> fst ` set c' \<longrightarrow>
        (\<exists>x \<in> set c'.
           (\<forall>y \<in> set c'. y \<noteq> x \<longrightarrow> last_use lu' (fst x) < last_use lu' (fst y))
           \<and> set (cache_setitem c' t k v) = (set c' - {x}) \<union> {(k, v, t + ttl)}))"
proof (intro conjI impI)
  assume a: "list_all (\<lambda>op. \<not> puts_key k op) ops \<and> t0 + ttl < t"
  have "stale_by k (t0 + ttl) (foldl apply_op (cache_setitem c t0 k v) ops)"
    using a stale_by_foldl [OF stale_by_setitem_same] by blast
  then have m: "\<not> cache_contains (foldl apply_op (cache_setitem c t0 k v) ops) t k
      \<and> fst (cache_getitem (foldl apply_op (cache_setitem c t0 k v) ops) t k) = Inl KeyError"
    using a stale_by_miss by blast
  from m show "\<not> cache_contains (foldl apply_op (cache_setitem c t0 k v) ops) t k" by blast
  from m show "fst (cache_getitem (foldl apply_op (cache_setitem c t0 k v) ops) t k)
               = Inl KeyError" by blast
next
  show "ttl = 60" by (simp add: ttl_def)
  show "maxsize = 2048" by (simp add: maxsize_def)
  show "tracked 0 (\<lambda>k. None) []" by (simp add: tracked_def)
next
  assume "length c \<le> maxsize"
  then show "length (foldl apply_op c ops) \<le> maxsize" by (rule foldl_bounded)
next
  assume "length c = maxsize \<and> list_all (\<lambda>x. t < snd (snd x)) c \<and> k \<notin> fst ` set c"
  then show "cache_setitem c t k v = tl c @ [(k, v, t + ttl)]"
    using full_cache_evicts_oldest by blast
next
  assume "\<not> cache_contains (CACHE w) (now w) (url @ ''|'' @ py_str (JObj params))"
  then show "fst (http_get_json E url params w) = fst (net E url params (now w))"
    by (rule http_get_json_miss)
next
  assume "cache_contains c t k"
  then show "\<exists>v' e. cache_getitem c t k
                 = (Inr v', filter (\<lambda>x. fst x \<noteq> k) c @ [(k, v', e)])"
    by (rule hit_moves_to_end)
next
  assume a: "tracked i lu c \<and> track ops i (c, lu) = (c', lu') \<and> length c' = maxsize
        \<and> list_all (\<lambda>x. t < snd (snd x)) c' \<and> k \<notin> fst ` set c'"
  then have "tracked (i + length ops) lu' c'" using tracked_track by blast
  then show "\<exists>x \<in> set c'.
           (\<forall>y \<in> set c'. y \<noteq> x \<longrightarrow> last_use lu' (fst x) < last_use lu' (fst y))
           \<and> set (cache_setitem c' t k v) = (set c' - {x}) \<union> {(k, v, t + ttl)}"
    using a oldest_is_evicted [of "i + length ops" lu' c' t k v] by blast
qed

lemma fc: "full_cache = ([], JNull, 100) # rest_cache"
proof -
  have "[0..<2048] = 0 # [Suc 0..<2048]" by (rule upt_conv_Cons) simp
  then show ?thesis by (simp add: full_cache_def rest_cache_def)
qed

lemma rest_keys: "\<forall>x \<in> set rest_cache. fst x \<noteq> []"
  by (auto simp: rest_cache_def)

lemma rest_filter: "filter (\<lambda>x. fst x \<noteq> []) rest_cache = rest_cache"
  using rest_keys by (simp add: filter_id_conv)

lemma hit: "cache_contains full_cache 10 []"
  by (simp add: fc cache_contains_def)

lemma got: "snd (cache_getitem full_cache 10 []) = rest_cache @ [([], JNull, 100)]"
  by (simp add: fc cache_getitem_def rest_filter)

lemma tr: "track [Getitem [] 10] 2048 (full_cache, use_by_length)
           = (rest_cache @ [([], JNull, 100)], use_by_length([] \<mapsto> 2048))"
  using hit got by simp

lemma tracked0: "tracked 2048 use_by_length full_cache"
  by (simp add: tracked_def full_cache_def distinct_map inj_on_def last_use_def use_by_length_def
      sorted_wrt_map comp_def)

lemma len: "length (rest_cache @ [([], JNull, 100)]) = maxsize"
  by (simp add: rest_cache_def maxsize_def)

lemma live: "list_all (\<lambda>x. 50 < snd (snd x)) (rest_cache @ [([], JNull, 100)])"
  by (simp add: rest_cache_def list_all_iff)

lemma newk: "''b'' \<notin> fst ` set (rest_cache @ [([], JNull, 100)])"
  by (auto simp: rest_cache_def Cons_replicate_eq)

lemma a_in: "(''a'', JNull, 100) \<in> set (rest_cache @ [([], JNull, 100)])"
proof -
  have "(replicate 1 (CHR ''a''), JNull, 100::real)
        \<in> (\<lambda>i. (replicate i (CHR ''a''), JNull, 100)) ` set [Suc 0..<2048]"
    by (rule imageI) simp
  then show ?thesis by (simp add: rest_cache_def)
qed

theorem cache_expiry_and_bound_witness:
  "\<not> cache_contains
       (foldl apply_op (cache_setitem [] 0 ''u'' JNull) [Getitem ''u'' 10, Setitem ''z'' JNull 20])
       61 ''u''
   \<and> length (foldl apply_op [] [Setitem ''z'' JNull 20, Getitem ''z'' 30]) \<le> maxsize
   \<and> cache_setitem (map (\<lambda>i. (replicate i (CHR ''a''), JNull, 100)) [0..<2048]) 50 ''b'' JNull
     = tl (map (\<lambda>i. (replicate i (CHR ''a''), JNull, 100)) [0..<2048]) @ [(''b'', JNull, 50 + ttl)]
   \<and> fst (http_get_json down_env ''u'' [] fresh_world) = Inl UpstreamError
   \<and> snd (cache_getitem full_cache 10 []) = rest_cache @ [([], JNull, 100)]
   \<and> ([], JNull, 100)
       \<in> set (cache_setitem (fst (track [Getitem [] 10] 2048 (full_cache, use_by_length)))
                50 ''b'' JNull)"
proof -
  let ?full = "map (\<lambda>i. (replicate i (CHR ''a''), JNull, 100::real)) [0..<2048]"
  note t1 = cache_expiry_and_bound [where k = "''u''"
      and ops = "[Getitem ''u'' 10, Setitem ''z'' JNull 20]" and ?t0.0 = 0 and t = 61
      and c = "[]" and v = JNull]
  have h1: "list_all (\<lambda>op. \<not> puts_key ''u'' op) [Getitem ''u'' 10, Setitem ''z'' JNull 20]
            \<and> (0::real) + ttl < 61"
    by (simp add: ttl_def)
  have a: "\<not> cache_contains
       (foldl apply_op (cache_setitem [] 0 ''u'' JNull) [Getitem ''u'' 10, Setitem ''z'' JNull 20])
       61 ''u''"
    using t1 [THEN conjunct1] h1 by blast
  note t2 = cache_expiry_and_bound [where c = "[]"
      and ops = "[Setitem ''z'' JNull 20, Getitem ''z'' 30]"]
  have h2: "length ([] :: cache) \<le> maxsize" by simp
  have b: "length (foldl apply_op [] [Setitem ''z'' JNull 20, Getitem ''z'' 30]) \<le> maxsize"
    using t2 [THEN conjunct2, THEN conjunct2, THEN conjunct2, THEN conjunct1] h2 by blast
  note t3 = cache_expiry_and_bound [where c = ?full and t = 50 and k = "''b''" and v = JNull]
  have h3: "length ?full = maxsize \<and> list_all (\<lambda>x. 50 < snd (snd x)) ?full
            \<and> ''b'' \<notin> fst ` set ?full"
    by (auto simp: maxsize_def list_all_iff Cons_replicate_eq)
  have c: "cache_setitem ?full 50 ''b'' JNull = tl ?full @ [(''b'', JNull, 50 + ttl)]"
    using t3 [THEN conjunct2, THEN conjunct2, THEN conjunct2, THEN conjunct2, THEN conjunct1] h3
    by blast
  note t4 = cache_expiry_and_bound [where w = fresh_world and url = "''u''" and params = "[]"
      and E = down_env]
  have h4: "\<not> cache_contains (CACHE fresh_world) (now fresh_world) (''u'' @ ''|'' @ py_str (JObj []))"
    by (simp add: fresh_world_def cache_contains_def)
  have "fst (http_get_json down_env ''u'' [] fresh_world)
        = fst (net down_env ''u'' [] (now fresh_world))"
    using t4 [THEN conjunct2, THEN conjunct2, THEN conjunct2, THEN conjunct2, THEN conjunct2,
        THEN conjunct1] h4
    by blast
  then have d: "fst (http_get_json down_env ''u'' [] fresh_world) = Inl UpstreamError"
    by (simp add: down_env_def)
  note t5 = cache_expiry_and_bound [where c = full_cache and t = 10 and k = "[]"]
  have "\<exists>v' e. cache_getitem full_cache 10 []
          = (Inr v', filter (\<lambda>x. fst x \<noteq> []) full_cache @ [([], v', e)])"
    using t5 [THEN conjunct2, THEN conjunct2, THEN conjunct2, THEN conjunct2, THEN conjunct2,
        THEN conjunct2, THEN conjunct1] hit by blast
  then have e: "snd (cache_getitem full_cache 10 []) = rest_cache @ [([], JNull, 100)]"
    using got by simp
  let ?c = "rest_cache @ [([], JNull, 100::real)]"
  let ?lu = "use_by_length([] \<mapsto> 2048)"
  note t6 = cache_expiry_and_bound [where i = 2048 and lu = use_by_length and c = full_cache
      and ops = "[Getitem [] 10]" and c' = ?c and lu' = ?lu and t = 50 and k = "''b''"
      and v = JNull]
  have h6: "tracked 2048 use_by_length full_cache
            \<and> track [Getitem [] 10] 2048 (full_cache, use_by_length) = (?c, ?lu)
            \<and> length ?c = maxsize \<and> list_all (\<lambda>x. 50 < snd (snd x)) ?c
            \<and> ''b'' \<notin> fst ` set ?c"
    using tracked0 tr len live newk by blast
  obtain x where x: "x \<in> set ?c"
    and least: "\<forall>y \<in> set ?c. y \<noteq> x \<longrightarrow> last_use ?lu (fst x) < last_use ?lu (fst y)"
    and after: "set (cache_setitem ?c 50 ''b'' JNull) = (set ?c - {x}) \<union> {(''b'', JNull, 50 + ttl)}"
    using t6 [THEN conjunct2, THEN conjunct2, THEN conjunct2, THEN conjunct2, THEN conjunct2,
        THEN conjunct2, THEN conjunct2, THEN conjunct2] h6 by blast
  have r0: "([], JNull, 100) \<in> set ?c" by simp
  have l0: "last_use ?lu (fst ([] :: string, JNull, 100::real)) = 2048"
    by (simp add: last_use_def)
  have l1: "last_use ?lu (fst (''a'', JNull, 100::real)) = 1"
    by (simp add: last_use_def use_by_length_def)
  have "x \<noteq> ([], JNull, 100)"
  proof
    assume "x = ([], JNull, 100)"
    then have "last_use ?lu (fst ([] :: string, JNull, 100::real))
               < last_use ?lu (fst (''a'', JNull, 100::real))"
      using least a_in by auto
    then show False using l0 l1 by simp
  qed
  then have "([], JNull, 100) \<in> set (cache_setitem ?c 50 ''b'' JNull)"
    using after r0 by blast
  then have f: "([], JNull, 100)
       \<in> set (cache_setitem (fst (track [Getitem [] 10] 2048 (full_cache, use_by_length)))
                50 ''b'' JNull)"
    using tr by simp
  show ?thesis using a b c d e f by blast
qed

section \<open>The recent-form fetcher on a season in calendar order\<close>

lemma form_loop_first_five:
  "list_all (\<lambda>ev. \<exists>r. form_event E tid ev = Inr r) evs \<Longrightarrow> length acc < 5 \<Longrightarrow>
   form_loop E tid evs acc = Inr (take 5 (acc @ form_lines E tid evs))"
proof (induction evs arbitrary: acc)
  case Nil
  then show ?case by (simp add: form_lines_def)
next
  case (Cons ev evs)
  from Cons.prems obtain r where r: "form_event E tid ev = Inr r" by auto
  have rest: "list_all (\<lambda>ev. \<exists>r. form_event E tid ev = Inr r) evs" using Cons.prems by simp
  show ?case
  proof (cases r)
    case None
    have "form_lines E tid (ev # evs) = form_lines E tid evs"
      using r None by (simp add: form_lines_def)
    then show ?thesis using r None Cons.IH [OF rest Cons.prems(2)] by simp
  next
    case (Some line)
    have l: "form_lines E tid (ev # evs) = line # form_lines E tid evs"
      using r Some by (simp add: form_lines_def)
    show ?thesis
    proof (cases "length acc = 4")
      case True
      then show ?thesis using r Some l by simp
    next
      case False
      then have "length (acc @ [line]) < 5" using Cons.prems(2) by simp
      then show ?thesis using r Some l Cons.IH [OF rest, of "acc @ [line]"] by simp
    qed
  qed
qed

text \<open>
  Claim C7, at a failing input. The claim asks for the five most recent finished games,
  the most recent first. On a schedule that lists six finished games of the team oldest
  first, the fetcher returns the five oldest, oldest first, and leaves the most recent
  game, of 6 January, out.
\<close>

theorem team_form_takes_first_five:
  "fst (team_form_espn season_env ''hockey'' ''nhl'' ''1'' fresh_world)
   = Inr (FORM_HEADER
          @ join ([CHR 0x0A] @ ''- '')
              [''W AAA 1-0 BBB (01/01 00:00)'',
               ''W AAA 2-0 BBB (02/01 00:00)'',
               ''W AAA 3-0 BBB (03/01 00:00)'',
               ''W AAA 4-0 BBB (04/01 00:00)'',
               ''W AAA 5-0 BBB (05/01 00:00)''])"
  by code_simp

end
